theory Spec2Isabelle
  imports Complex_Main
begin

section \<open>Desksong audio engine: data model\<close>

text \<open>
  JavaScript numbers are modelled as \<^typ>\<open>real\<close>: arithmetic is exact, so "within
  floating-point tolerance" reads as equality, and there is no NaN or Infinity (a division
  by a zero playback rate is outside the model; the statements below keep the rate non-zero).
  A thrown exception is a value of \<open>js_error\<close>; a function that can throw returns
  \<open>js_error + 'a\<close> with \<open>Inl\<close> for the throw (the fields it had assigned before the
  throw are then not reported), or a pair of a \<open>completion\<close> and the state where the
  state after the throw matters. A method call on \<open>null\<close> is a \<open>TypeError\<close>.
\<close>

datatype js_error = TypeError | RangeError | InvalidStateError | EncodingError

subsection \<open>Web Audio parameters (platform objects the engine drives)\<close>

text \<open>
  An \<open>AudioParam\<close> of the Web Audio API: the value the rendering thread computed last
  (\<open>current_value\<close>, what the \<open>.value\<close> getter returns) and the automation events
  scheduled on it, ordered by time. The engine only uses \<open>cancelScheduledValues\<close>,
  \<open>setValueAtTime\<close>, \<open>linearRampToValueAtTime\<close>, the \<open>.value\<close> getter and
  plain assignment to \<open>.value\<close>; these follow the automation rules of the Web Audio
  specification, with rendering idealised to happen exactly at the context clock.
\<close>

datatype automation_event =
    SetValueAtTime real real
  | LinearRampToValueAtTime real real

fun event_time :: "automation_event \<Rightarrow> real" where
  "event_time (SetValueAtTime v t) = t"
| "event_time (LinearRampToValueAtTime v t) = t"

fun is_ramp :: "automation_event \<Rightarrow> bool" where
  "is_ramp (SetValueAtTime v t) = False"
| "is_ramp (LinearRampToValueAtTime v t) = True"

record audio_param =
  current_value :: real
  timeline :: "automation_event list"

definition new_param :: "real \<Rightarrow> audio_param" where
  "new_param v = \<lparr>current_value = v, timeline = []\<rparr>"

definition assign_value :: "real \<Rightarrow> audio_param \<Rightarrow> audio_param" where
  \<comment> \<open>\<open>param.value = v\<close>\<close>
  "assign_value v p = p\<lparr>current_value := v\<rparr>"

definition cancelScheduledValues :: "real \<Rightarrow> audio_param \<Rightarrow> audio_param" where
  \<comment> \<open>removes every event scheduled at or after \<open>t\<close>; the current value is not touched\<close>
  "cancelScheduledValues t p = p\<lparr>timeline := filter (\<lambda>e. event_time e < t) (timeline p)\<rparr>"

fun insert_event :: "automation_event \<Rightarrow> automation_event list \<Rightarrow> automation_event list" where
  "insert_event e [] = [e]"
| "insert_event e (x # xs) =
     (if event_time x < event_time e then x # insert_event e xs
      else if event_time x = event_time e then
        (if is_ramp x = is_ramp e then e # xs else x # insert_event e xs)
      else e # x # xs)"

definition setValueAtTime :: "real \<Rightarrow> real \<Rightarrow> audio_param \<Rightarrow> audio_param" where
  "setValueAtTime v t p = p\<lparr>timeline := insert_event (SetValueAtTime v t) (timeline p)\<rparr>"

definition linearRampToValueAtTime :: "real \<Rightarrow> real \<Rightarrow> real \<Rightarrow> audio_param \<Rightarrow> audio_param" where
  \<comment> \<open>\<open>now\<close> is the context time of the call: a ramp with no event before it starts
      from the current value at the time of the call\<close>
  "linearRampToValueAtTime v tEnd now p =
     (let tl = (if filter (\<lambda>e. event_time e \<le> tEnd) (timeline p) = []
                then insert_event (SetValueAtTime (current_value p) now) (timeline p)
                else timeline p)
      in p\<lparr>timeline := insert_event (LinearRampToValueAtTime v tEnd) tl\<rparr>)"

fun timeline_value :: "real \<Rightarrow> real \<Rightarrow> automation_event list \<Rightarrow> real \<Rightarrow> real" where
  "timeline_value v0 t0 [] t = v0"
| "timeline_value v0 t0 (SetValueAtTime v te # es) t =
     (if t < te then v0 else timeline_value v te es t)"
| "timeline_value v0 t0 (LinearRampToValueAtTime v te # es) t =
     (if t < te then v0 + (v - v0) * ((t - t0) / (te - t0)) else timeline_value v te es t)"

definition param_value_at :: "audio_param \<Rightarrow> real \<Rightarrow> real" where
  \<comment> \<open>the value the rendering thread computes for time \<open>t\<close>\<close>
  "param_value_at p t = timeline_value (current_value p) 0 (timeline p) t"

definition render_param :: "real \<Rightarrow> audio_param \<Rightarrow> audio_param" where
  "render_param t p = p\<lparr>current_value := param_value_at p t\<rparr>"

subsection \<open>Decoded audio, context, nodes\<close>

record audio_buffer =
  sampleRate :: nat
  frames :: nat
  channelData :: "real list list"

definition numberOfChannels :: "audio_buffer \<Rightarrow> nat" where
  "numberOfChannels b = length (channelData b)"

definition duration :: "audio_buffer \<Rightarrow> real" where
  "duration b = real (frames b) / real (sampleRate b)"

datatype context_state = Suspended | Running | Closed

record audio_context =
  ctx_state :: context_state
  currentTime :: real

datatype source_state = Unscheduled | Started | Ended

record source_node =
  src_buffer :: audio_buffer
  src_playbackRate :: audio_param
  src_detune :: audio_param
  src_offset :: real
  src_state :: source_state

record gain_node =
  gain :: audio_param

record biquad_node =
  bq_frequency :: audio_param
  bq_Q :: audio_param
  bq_gain :: audio_param

record compressor_node =
  threshold :: audio_param
  knee :: audio_param
  ratio :: audio_param
  attack :: audio_param
  release :: audio_param

record delay_node =
  delayTime :: audio_param

record oscillator_node =
  osc_frequency :: audio_param

datatype node_id =
    SourceNode | GainNode | BassFilter | Compressor | DryGain | ConvolverNode | WetGain
  | DelayInput | DelayNode | DelayFeedback | DelayWetGain
  | ChorusInput | ChorusDelay | ChorusDelayTime | ChorusDepth | ChorusLFO | ChorusWetGain
  | AnalyserNode | Destination

type_synonym connections = "(node_id \<times> node_id) list"

definition connect :: "node_id \<Rightarrow> node_id \<Rightarrow> connections \<Rightarrow> connections" where
  \<comment> \<open>\<open>a.connect(b)\<close>; connecting an existing pair again changes nothing\<close>
  "connect a b g = (if (a, b) \<in> set g then g else g @ [(a, b)])"

definition disconnect :: "node_id \<Rightarrow> connections \<Rightarrow> connections" where
  \<comment> \<open>\<open>a.disconnect()\<close>: drops every outgoing connection of \<open>a\<close>\<close>
  "disconnect a g = filter (\<lambda>c. fst c \<noteq> a) g"

definition connect_all :: "(node_id \<times> node_id) list \<Rightarrow> connections \<Rightarrow> connections" where
  \<comment> \<open>a run of \<open>connect\<close> calls, in the order they are written\<close>
  "connect_all cs g = foldl (\<lambda>g' c. connect (fst c) (snd c) g') g cs"

datatype timer_callback = CallPlay

text \<open>The fields of \<open>AudioEngine\<close> (src/renderer/js/audio-engine.js, constructor).\<close>

record engine =
  audioContext :: "audio_context option"
  sourceNode :: "source_node option"
  audioBuffer :: "audio_buffer option"
  startTime :: real
  pauseTime :: real
  isPlaying :: bool
  gainNode :: "gain_node option"
  bassFilter :: "biquad_node option"
  compressor :: "compressor_node option"
  dryGain :: "gain_node option"
  wetGain :: "gain_node option"
  delayInput :: "gain_node option"
  delayNode :: "delay_node option"
  delayFeedback :: "gain_node option"
  delayWetGain :: "gain_node option"
  chorusInput :: "gain_node option"
  chorusDelay :: "delay_node option"
  chorusDepth :: "gain_node option"
  chorusLFO :: "oscillator_node option"
  chorusWetGain :: "gain_node option"
  playbackRate :: real
  pitchShift :: real
  reverbMix :: real
  bassBoost :: real
  compressorThreshold :: real
  preservePitch :: bool
  actualPlaybackRate :: real
  delayMix :: real
  chorusMix :: real
  chainConfigured :: bool
  pendingDelayMix :: "real option"
  pendingChorusMix :: "real option"
  graph :: connections
  timers :: "(nat \<times> timer_callback) list"

section \<open>Clock and transport\<close>

definition updateActualPlaybackRate :: "engine \<Rightarrow> engine" where
  "updateActualPlaybackRate s =
     (if preservePitch s then s\<lparr>actualPlaybackRate := playbackRate s\<rparr>
      else s\<lparr>actualPlaybackRate := playbackRate s * (2 powr (pitchShift s / 12))\<rparr>)"

definition setupAudioChain :: "engine \<Rightarrow> engine" where
  "setupAudioChain s =
     (if audioContext s = None \<or> chainConfigured s then s
      else
        let g1 = connect GainNode BassFilter (graph s);
            g2 = connect BassFilter Compressor g1;
            g3 = connect Compressor DryGain g2;
            g4 = connect Compressor ConvolverNode g3;
            g5 = connect ConvolverNode WetGain g4;
            g6 = (if delayInput s \<noteq> None \<and> delayWetGain s \<noteq> None
                  then connect DelayWetGain AnalyserNode (connect Compressor DelayInput g5)
                  else g5);
            g7 = (if chorusInput s \<noteq> None \<and> chorusWetGain s \<noteq> None
                  then connect ChorusWetGain AnalyserNode (connect Compressor ChorusInput g6)
                  else g6);
            g8 = connect DryGain AnalyserNode g7;
            g9 = connect WetGain AnalyserNode g8;
            g10 = connect AnalyserNode Destination g9
        in s\<lparr>graph := g10, chainConfigured := True\<rparr>)"

definition createBufferSource :: "audio_buffer \<Rightarrow> source_node" where
  \<comment> \<open>\<open>createBufferSource()\<close> followed by \<open>sourceNode.buffer = audioBuffer\<close>\<close>
  "createBufferSource b =
     \<lparr>src_buffer = b, src_playbackRate = new_param 1, src_detune = new_param 0,
      src_offset = 0, src_state = Unscheduled\<rparr>"

definition play :: "engine \<Rightarrow> js_error + engine" where
  \<comment> \<open>\<open>start(0, offset)\<close> refuses a negative offset. The \<open>onended\<close> handler (a
      \<open>stop()\<close> when the track runs out) is an event of its own and not part of this call.\<close>
  "play s =
     (case audioBuffer s of
        None \<Rightarrow> Inr s
      | Some buf \<Rightarrow>
          if isPlaying s then Inr s
          else (case audioContext s of
                  None \<Rightarrow> Inl TypeError
                | Some ctx \<Rightarrow>
                    let s1 = updateActualPlaybackRate s;
                        n1 = (createBufferSource buf)
                               \<lparr>src_playbackRate := assign_value (actualPlaybackRate s1) (new_param 1)\<rparr>;
                        n2 = (if preservePitch s1 \<and> pitchShift s1 \<noteq> 0
                              then n1\<lparr>src_detune := assign_value (pitchShift s1 * 100) (src_detune n1)\<rparr>
                              else n1)
                    in if gainNode s1 = None then Inl TypeError
                       else
                         let s2 = setupAudioChain (s1\<lparr>graph := connect SourceNode GainNode (graph s1)\<rparr>);
                             offset = pauseTime s2
                         in if offset < 0 then Inl RangeError
                            else Inr (s2\<lparr>sourceNode := Some (n2\<lparr>src_offset := offset, src_state := Started\<rparr>),
                                        startTime := currentTime ctx - offset / actualPlaybackRate s2,
                                        isPlaying := True\<rparr>)))"

definition stop_source :: "source_node \<Rightarrow> js_error + unit" where
  \<comment> \<open>\<open>sourceNode.stop()\<close> of the platform: refuses a node that is not playing\<close>
  "stop_source n = (if src_state n = Started then Inr () else Inl InvalidStateError)"

definition stop_and_disconnect :: "engine \<Rightarrow> engine" where
  \<comment> \<open>\<open>try { sourceNode.stop(); sourceNode.disconnect(); } catch (e) { }\<close>\<close>
  "stop_and_disconnect s =
     (case sourceNode s of
        None \<Rightarrow> s
      | Some n \<Rightarrow>
          (case stop_source n of
             Inl e \<Rightarrow> s
           | Inr u \<Rightarrow> s\<lparr>sourceNode := Some (n\<lparr>src_state := Ended\<rparr>),
                        graph := disconnect SourceNode (graph s)\<rparr>))"

definition pause :: "engine \<Rightarrow> js_error + engine" where
  "pause s =
     (if isPlaying s = False \<or> sourceNode s = None then Inr s
      else (case audioContext s of
              None \<Rightarrow> Inl TypeError
            | Some ctx \<Rightarrow>
                let elapsed = currentTime ctx - startTime s;
                    s1 = s\<lparr>pauseTime := pauseTime s + elapsed * actualPlaybackRate s\<rparr>;
                    s2 = stop_and_disconnect s1
                in Inr (s2\<lparr>sourceNode := None, isPlaying := False\<rparr>)))"

definition stop :: "engine \<Rightarrow> js_error + engine" where
  "stop s =
     (let s1 = (if sourceNode s \<noteq> None then (stop_and_disconnect s)\<lparr>sourceNode := None\<rparr> else s)
      in Inr (s1\<lparr>isPlaying := False, pauseTime := 0, startTime := 0\<rparr>))"

definition seek :: "real \<Rightarrow> engine \<Rightarrow> js_error + engine" where
  "seek time s =
     (case audioBuffer s of
        None \<Rightarrow> Inr s
      | Some buf \<Rightarrow>
          let wasPlaying = isPlaying s;
              targetTime = max 0 (min time (duration buf));
              s1 = (if isPlaying s
                    then (stop_and_disconnect s)\<lparr>sourceNode := None, isPlaying := False\<rparr>
                    else s)
          in (case audioContext s1 of
                None \<Rightarrow> Inl TypeError
              | Some ctx \<Rightarrow>
                  let s2 = s1\<lparr>pauseTime := targetTime, startTime := currentTime ctx\<rparr>
                  in Inr (if wasPlaying then s2\<lparr>timers := timers s2 @ [(10, CallPlay)]\<rparr> else s2)))"

definition getCurrentTime :: "engine \<Rightarrow> js_error + real" where
  "getCurrentTime s =
     (case audioBuffer s of
        None \<Rightarrow> Inr 0
      | Some buf \<Rightarrow>
          if isPlaying s \<and> sourceNode s \<noteq> None then
            (case audioContext s of
               None \<Rightarrow> Inl TypeError
             | Some ctx \<Rightarrow>
                 let elapsed = currentTime ctx - startTime s;
                     currentTime' = pauseTime s + elapsed * actualPlaybackRate s
                 in Inr (min currentTime' (duration buf)))
          else Inr (pauseTime s))"

definition render_gain :: "real \<Rightarrow> gain_node \<Rightarrow> gain_node" where
  "render_gain t n = n\<lparr>gain := render_param t (gain n)\<rparr>"

definition render_delay :: "real \<Rightarrow> delay_node \<Rightarrow> delay_node" where
  "render_delay t n = n\<lparr>delayTime := render_param t (delayTime n)\<rparr>"

definition render_nodes :: "real \<Rightarrow> engine \<Rightarrow> engine" where
  \<comment> \<open>what the rendering thread does to the parameters by time \<open>t\<close>: each current value
      becomes the value its timeline gives for \<open>t\<close>\<close>
  "render_nodes t s =
     s\<lparr>sourceNode := map_option (\<lambda>n. n\<lparr>src_playbackRate := render_param t (src_playbackRate n),
                                          src_detune := render_param t (src_detune n)\<rparr>) (sourceNode s),
       gainNode := map_option (render_gain t) (gainNode s),
       bassFilter := map_option (\<lambda>n. n\<lparr>bq_frequency := render_param t (bq_frequency n),
                                          bq_Q := render_param t (bq_Q n),
                                          bq_gain := render_param t (bq_gain n)\<rparr>) (bassFilter s),
       compressor := map_option (\<lambda>n. n\<lparr>threshold := render_param t (threshold n),
                                          knee := render_param t (knee n),
                                          ratio := render_param t (ratio n),
                                          attack := render_param t (attack n),
                                          release := render_param t (release n)\<rparr>) (compressor s),
       dryGain := map_option (render_gain t) (dryGain s),
       wetGain := map_option (render_gain t) (wetGain s),
       delayInput := map_option (render_gain t) (delayInput s),
       delayNode := map_option (render_delay t) (delayNode s),
       delayFeedback := map_option (render_gain t) (delayFeedback s),
       delayWetGain := map_option (render_gain t) (delayWetGain s),
       chorusInput := map_option (render_gain t) (chorusInput s),
       chorusDelay := map_option (render_delay t) (chorusDelay s),
       chorusDepth := map_option (render_gain t) (chorusDepth s),
       chorusLFO := map_option (\<lambda>n. n\<lparr>osc_frequency := render_param t (osc_frequency n)\<rparr>) (chorusLFO s),
       chorusWetGain := map_option (render_gain t) (chorusWetGain s)\<rparr>"

definition advance_clock :: "real \<Rightarrow> engine \<Rightarrow> engine" where
  \<comment> \<open>the environment: \<open>dt\<close> seconds pass on the context clock and the parameters are
      rendered up to the new time; no engine method runs\<close>
  "advance_clock dt s =
     (case audioContext s of
        None \<Rightarrow> s
      | Some ctx \<Rightarrow>
          render_nodes (currentTime ctx + dt)
            (s\<lparr>audioContext := Some (ctx\<lparr>currentTime := currentTime ctx + dt\<rparr>)\<rparr>))"

section \<open>Effect setters\<close>

definition ramp_to :: "real \<Rightarrow> real \<Rightarrow> real \<Rightarrow> audio_param \<Rightarrow> audio_param" where
  \<comment> \<open>the idiom of every smoothed setter:
      \<open>p.cancelScheduledValues(now); p.setValueAtTime(p.value, now);
       p.linearRampToValueAtTime(target, now + d)\<close>\<close>
  "ramp_to target now d p =
     (let p1 = cancelScheduledValues now p;
          p2 = setValueAtTime (current_value p1) now p1
      in linearRampToValueAtTime target (now + d) now p2)"

definition setVolume :: "real \<Rightarrow> engine \<Rightarrow> js_error + engine" where
  "setVolume v s =
     (case gainNode s of
        None \<Rightarrow> Inr s
      | Some g \<Rightarrow>
          (case audioContext s of
             None \<Rightarrow> Inl TypeError
           | Some ctx \<Rightarrow>
               let now = currentTime ctx
               in Inr (s\<lparr>gainNode := Some (g\<lparr>gain := ramp_to (v / 100) now 0.05 (gain g)\<rparr>)\<rparr>)))"

definition setReverbMix :: "real \<Rightarrow> engine \<Rightarrow> js_error + engine" where
  "setReverbMix v s =
     (let s1 = s\<lparr>reverbMix := v / 100\<rparr>
      in case (dryGain s1, wetGain s1) of
           (Some d, Some w) \<Rightarrow>
             (case audioContext s1 of
                None \<Rightarrow> Inl TypeError
              | Some ctx \<Rightarrow>
                  let now = currentTime ctx
                  in Inr (s1\<lparr>dryGain := Some (d\<lparr>gain := ramp_to (1 - reverbMix s1) now 0.1 (gain d)\<rparr>),
                              wetGain := Some (w\<lparr>gain := ramp_to (reverbMix s1) now 0.1 (gain w)\<rparr>)\<rparr>))
         | _ \<Rightarrow> Inr s1)"

definition setBassBoost :: "real \<Rightarrow> engine \<Rightarrow> js_error + engine" where
  "setBassBoost v s =
     (let s1 = s\<lparr>bassBoost := (v / 100) * 20\<rparr>
      in case bassFilter s1 of
           None \<Rightarrow> Inr s1
         | Some f \<Rightarrow>
             (case audioContext s1 of
                None \<Rightarrow> Inl TypeError
              | Some ctx \<Rightarrow>
                  let now = currentTime ctx
                  in Inr (s1\<lparr>bassFilter := Some (f\<lparr>bq_gain := ramp_to (bassBoost s1) now 0.1 (bq_gain f)\<rparr>)\<rparr>)))"

definition setCompressor :: "real \<Rightarrow> engine \<Rightarrow> js_error + engine" where
  "setCompressor v s =
     (let s1 = s\<lparr>compressorThreshold := -50 + (v / 100) * 40\<rparr>
      in case compressor s1 of
           None \<Rightarrow> Inr s1
         | Some c \<Rightarrow>
             (case audioContext s1 of
                None \<Rightarrow> Inl TypeError
              | Some ctx \<Rightarrow>
                  let now = currentTime ctx;
                      ratio' = 4 + (v / 100) * 16
                  in Inr (s1\<lparr>compressor := Some (c\<lparr>threshold := setValueAtTime (compressorThreshold s1) now (threshold c),
                                                      ratio := setValueAtTime ratio' now (ratio c)\<rparr>)\<rparr>)))"

definition setDelayMix :: "real \<Rightarrow> engine \<Rightarrow> js_error + engine" where
  "setDelayMix v s =
     (let clamped = max 0 (min 100 v);
          s1 = s\<lparr>delayMix := clamped / 100\<rparr>
      in case (audioContext s1, delayNode s1, delayFeedback s1, delayWetGain s1) of
           (Some ctx, Some dn, Some fb, Some wg) \<Rightarrow>
             let now = currentTime ctx;
                 minDelay = 0.08;
                 maxDelay = 0.6;
                 targetDelay = minDelay + (maxDelay - minDelay) * delayMix s1;
                 feedback = 0.1 + delayMix s1 * 0.6;
                 wetLevel = delayMix s1 * 0.9
             in Inr (s1\<lparr>pendingDelayMix := None,
                         delayNode := Some (dn\<lparr>delayTime := ramp_to targetDelay now 0.12 (delayTime dn)\<rparr>),
                         delayFeedback := Some (fb\<lparr>gain := ramp_to feedback now 0.12 (gain fb)\<rparr>),
                         delayWetGain := Some (wg\<lparr>gain := ramp_to wetLevel now 0.12 (gain wg)\<rparr>)\<rparr>)
         | _ \<Rightarrow> Inr (s1\<lparr>pendingDelayMix := Some clamped\<rparr>))"

definition setChorusMix :: "real \<Rightarrow> engine \<Rightarrow> js_error + engine" where
  "setChorusMix v s =
     (let clamped = max 0 (min 100 v);
          s1 = s\<lparr>chorusMix := clamped / 100\<rparr>
      in case (audioContext s1, chorusDepth s1, chorusWetGain s1, chorusLFO s1) of
           (Some ctx, Some cd, Some wg, Some lfo) \<Rightarrow>
             let now = currentTime ctx;
                 depth = 0.001 + chorusMix s1 * 0.004;
                 rate = 0.3 + chorusMix s1 * 1.2;
                 wet = chorusMix s1 * 0.8
             in Inr (s1\<lparr>pendingChorusMix := None,
                         chorusDepth := Some (cd\<lparr>gain := ramp_to depth now 0.12 (gain cd)\<rparr>),
                         chorusLFO := Some (lfo\<lparr>osc_frequency := setValueAtTime rate now (osc_frequency lfo)\<rparr>),
                         chorusWetGain := Some (wg\<lparr>gain := ramp_to wet now 0.12 (gain wg)\<rparr>)\<rparr>)
         | _ \<Rightarrow> Inr (s1\<lparr>pendingChorusMix := Some clamped\<rparr>))"

definition applyPlaybackRate :: "engine \<Rightarrow> js_error + engine" where
  "applyPlaybackRate s =
     (let s1 = updateActualPlaybackRate s
      in case sourceNode s1 of
           None \<Rightarrow> Inr s1
         | Some n \<Rightarrow>
             if \<not> isPlaying s1 then Inr s1
             else (case audioContext s1 of
                     None \<Rightarrow> Inl TypeError
                   | Some ctx \<Rightarrow>
                       let now = currentTime ctx;
                           elapsed = now - startTime s1;
                           s2 = s1\<lparr>pauseTime := pauseTime s1 + elapsed * actualPlaybackRate s1,
                                   startTime := now\<rparr>;
                           n1 = n\<lparr>src_playbackRate := ramp_to (actualPlaybackRate s2) now 0.1 (src_playbackRate n)\<rparr>;
                           n2 = (if preservePitch s2
                                 then n1\<lparr>src_detune := ramp_to (pitchShift s2 * 100) now 0.1 (src_detune n1)\<rparr>
                                 else n1)
                       in Inr (s2\<lparr>sourceNode := Some n2\<rparr>)))"

definition linear_ramp :: "real \<Rightarrow> real \<Rightarrow> real \<Rightarrow> real \<Rightarrow> real \<Rightarrow> real" where
  \<comment> \<open>a ramp in the sense of the specification: from \<open>c\<close> at time \<open>now\<close> in a straight
      line to \<open>target\<close> at \<open>now + d\<close>, and \<open>target\<close> from then on\<close>
  "linear_ramp c target now d t =
     (if t < now + d then c + (target - c) * ((t - now) / d) else target)"

section \<open>Construction and initialisation\<close>

definition new_engine :: engine where
  \<comment> \<open>the field values the constructor assigns\<close>
  "new_engine =
     \<lparr>audioContext = None, sourceNode = None, audioBuffer = None,
      startTime = 0, pauseTime = 0, isPlaying = False,
      gainNode = None, bassFilter = None, compressor = None, dryGain = None, wetGain = None,
      delayInput = None, delayNode = None, delayFeedback = None, delayWetGain = None,
      chorusInput = None, chorusDelay = None, chorusDepth = None, chorusLFO = None,
      chorusWetGain = None,
      playbackRate = 1.0, pitchShift = 0, reverbMix = 0, bassBoost = 0,
      compressorThreshold = -24, preservePitch = True, actualPlaybackRate = 1.0,
      delayMix = 0, chorusMix = 0, chainConfigured = False,
      pendingDelayMix = None, pendingChorusMix = None, graph = [], timers = []\<rparr>"

definition create_nodes :: "audio_context \<Rightarrow> engine \<Rightarrow> engine" where
  \<comment> \<open>the node creation of \<open>initializeAudioContext\<close>, up to \<open>loadImpulseResponse\<close>\<close>
  "create_nodes ctx s =
     s\<lparr>audioContext := Some ctx,
       gainNode := Some \<lparr>gain = new_param 1\<rparr>,
       bassFilter := Some \<lparr>bq_frequency = new_param 250, bq_Q = new_param 0.7, bq_gain = new_param 0\<rparr>,
       compressor := Some \<lparr>threshold = new_param (-24), knee = new_param 30, ratio = new_param 12,
                            attack = new_param 0.003, release = new_param 0.25\<rparr>,
       dryGain := Some \<lparr>gain = new_param 1.0\<rparr>,
       wetGain := Some \<lparr>gain = new_param 0.0\<rparr>,
       delayInput := Some \<lparr>gain = new_param 1.0\<rparr>,
       delayNode := Some \<lparr>delayTime = new_param 0.25\<rparr>,
       delayFeedback := Some \<lparr>gain = new_param 0.2\<rparr>,
       delayWetGain := Some \<lparr>gain = new_param 0.0\<rparr>,
       chorusInput := Some \<lparr>gain = new_param 1.0\<rparr>,
       chorusDelay := Some \<lparr>delayTime = new_param 0.015\<rparr>,
       chorusDepth := Some \<lparr>gain = new_param 0.004\<rparr>,
       chorusWetGain := Some \<lparr>gain = new_param 0.0\<rparr>,
       chorusLFO := Some \<lparr>osc_frequency = new_param 0.8\<rparr>,
       graph := connect_all
                  [(DelayInput, DelayNode), (DelayNode, DelayFeedback),
                   (DelayFeedback, DelayNode), (DelayNode, DelayWetGain),
                   (ChorusInput, ChorusDelay), (ChorusDelay, ChorusWetGain),
                   (ChorusLFO, ChorusDepth), (ChorusDepth, ChorusDelayTime)] (graph s)\<rparr>"

definition initializeAudioContext :: "audio_context option \<Rightarrow> engine \<Rightarrow> engine" where
  \<comment> \<open>the argument is what \<open>new AudioContext()\<close> gave: \<open>None\<close> when it threw. Every
      throw inside is caught and logged, leaving the engine as it was at that point.\<close>
  "initializeAudioContext made s =
     (case made of
        None \<Rightarrow> s
      | Some ctx \<Rightarrow>
          let s1 = setupAudioChain (create_nodes ctx s)
          in (case (case pendingDelayMix s1 of
                      Some v \<Rightarrow> setDelayMix v (s1\<lparr>pendingDelayMix := None\<rparr>)
                    | None \<Rightarrow> setDelayMix (delayMix s1 * 100) s1) of
                Inl e \<Rightarrow> s1
              | Inr s2 \<Rightarrow>
                  (case (case pendingChorusMix s2 of
                           Some v \<Rightarrow> setChorusMix v (s2\<lparr>pendingChorusMix := None\<rparr>)
                         | None \<Rightarrow> setChorusMix (chorusMix s2 * 100) s2) of
                     Inl e \<Rightarrow> s2
                   | Inr s3 \<Rightarrow> s3)))"

section \<open>Loading a track\<close>

datatype 'a completion = Returned 'a | Thrown js_error

record audio_info =
  info_duration :: real
  info_sampleRate :: nat
  info_channels :: nat

definition loadAudioFile ::
  "('bytes \<Rightarrow> js_error + audio_buffer) \<Rightarrow> 'bytes \<Rightarrow> engine \<Rightarrow> audio_info completion \<times> engine" where
  \<comment> \<open>\<open>decode\<close> is the platform's \<open>decodeAudioData\<close>. The \<open>catch\<close> block logs and
      rethrows, so a throw inside \<open>try\<close> is a throw of \<open>loadAudioFile\<close>.\<close>
  "loadAudioFile decode arrayBuffer s =
     (case audioContext s of
        None \<Rightarrow> (Thrown TypeError, s)
      | Some ctx \<Rightarrow>
          let s1 = (if ctx_state ctx = Suspended
                    then s\<lparr>audioContext := Some (ctx\<lparr>ctx_state := Running\<rparr>)\<rparr> else s)
          in (case decode arrayBuffer of
                Inl e \<Rightarrow> (Thrown e, s1)
              | Inr buf \<Rightarrow>
                  (Returned \<lparr>info_duration = duration buf, info_sampleRate = sampleRate buf,
                             info_channels = numberOfChannels buf\<rparr>,
                   s1\<lparr>audioBuffer := Some buf, pauseTime := 0, startTime := 0\<rparr>)))"

subsection \<open>The caller: \<open>DeskSongApp.playTrackAt\<close> (src/renderer/js/app.js)\<close>

record track =
  path :: string
  name :: string
  track_duration :: real

record app =
  audioEngine :: engine
  tracks :: "track list"
  currentIndex :: int
  notifications :: "(string \<times> string) list"
  playButton :: bool

definition failed_to_play :: "engine \<Rightarrow> app \<Rightarrow> app" where
  \<comment> \<open>the \<open>catch\<close> block of \<open>playTrackAt\<close>\<close>
  "failed_to_play e a =
     a\<lparr>audioEngine := e, notifications := notifications a @ [(''Failed to play track'', ''error'')]\<rparr>"

definition playTrackAt ::
  "('bytes \<Rightarrow> js_error + audio_buffer) \<Rightarrow> (string \<Rightarrow> 'bytes option) \<Rightarrow> int \<Rightarrow> app \<Rightarrow> app" where
  \<comment> \<open>\<open>readFile\<close> is \<open>window.electronAPI.readFile\<close> (\<open>None\<close> for null). The updates of
      the track display and the playlist view are left out.\<close>
  "playTrackAt decode readFile index a =
     (if \<not> (0 \<le> index \<and> index < int (length (tracks a))) then a
      else
        let a1 = a\<lparr>currentIndex := index\<rparr>;
            tr = tracks a1 ! nat index
        in (case stop (audioEngine a1) of
              Inl e \<Rightarrow> failed_to_play (audioEngine a1) a1
            | Inr e1 \<Rightarrow>
                (case readFile (path tr) of
                   None \<Rightarrow> failed_to_play e1 a1
                 | Some buffer \<Rightarrow>
                     (case loadAudioFile decode buffer e1 of
                        (Thrown err, e2) \<Rightarrow> failed_to_play e2 a1
                      | (Returned info, e2) \<Rightarrow>
                          let a2 = (if track_duration tr = 0
                                    then a1\<lparr>tracks := (tracks a1)[nat index := tr\<lparr>track_duration := info_duration info\<rparr>]\<rparr>
                                    else a1)
                          in (case play e2 of
                                Inl err \<Rightarrow> failed_to_play e2 a2
                              | Inr e3 \<Rightarrow> a2\<lparr>audioEngine := e3, playButton := True\<rparr>)))))"

section \<open>The second engine: \<open>AdvancedAudioEngine\<close> (transport fields only)\<close>

record adv_engine =
  adv_audioContext :: "audio_context option"
  adv_audioBuffer :: "audio_buffer option"
  adv_sourceNode :: "source_node option"
  adv_nextSourceNode :: "source_node option"
  adv_startTime :: real
  adv_pauseTime :: real
  adv_isPlaying :: bool
  adv_isCrossfading :: bool
  adv_playbackRate :: real

definition adv_stop :: "adv_engine \<Rightarrow> js_error + adv_engine" where
  \<comment> \<open>both \<open>try\<close> blocks swallow what \<open>stop()\<close> and \<open>disconnect()\<close> throw, so the two
      nodes are dropped whatever state they are in\<close>
  "adv_stop s =
     (let s1 = (case adv_sourceNode s of
                  None \<Rightarrow> s
                | Some n \<Rightarrow> (case stop_source n of Inl e \<Rightarrow> s\<lparr>adv_sourceNode := None\<rparr>
                                                   | Inr u \<Rightarrow> s\<lparr>adv_sourceNode := None\<rparr>));
          s2 = (case adv_nextSourceNode s1 of
                  None \<Rightarrow> s1
                | Some n \<Rightarrow> (case stop_source n of Inl e \<Rightarrow> s1\<lparr>adv_nextSourceNode := None\<rparr>
                                                   | Inr u \<Rightarrow> s1\<lparr>adv_nextSourceNode := None\<rparr>))
      in Inr (s2\<lparr>adv_isPlaying := False, adv_isCrossfading := False,
                  adv_pauseTime := 0, adv_startTime := 0\<rparr>))"

definition adv_getCurrentTime :: "adv_engine \<Rightarrow> js_error + real" where
  "adv_getCurrentTime s =
     (case adv_audioBuffer s of
        None \<Rightarrow> Inr 0
      | Some buf \<Rightarrow>
          if adv_isPlaying s \<and> adv_sourceNode s \<noteq> None then
            (case adv_audioContext s of
               None \<Rightarrow> Inl TypeError
             | Some ctx \<Rightarrow>
                 let elapsed = currentTime ctx - adv_startTime s;
                     currentTime' = adv_pauseTime s
                        + elapsed * (if adv_playbackRate s = 0 then 1.0 else adv_playbackRate s)
                 in Inr (min currentTime' (duration buf)))
          else Inr (adv_pauseTime s))"

section \<open>Presets\<close>

type_synonym js_object = "(string \<times> real) list"

record preset_config =
  reverb :: real
  pitch :: real
  speed :: real
  delay :: real
  chorus :: real

definition default_preset :: preset_config where
  "default_preset = \<lparr>reverb = 0, pitch = 0, speed = 1.0, delay = 0, chorus = 0\<rparr>"

definition presets :: "(string \<times> preset_config) list" where
  \<comment> \<open>the table of \<open>AudioEngine.applyPreset\<close>, first version of audio-engine.js\<close>
  "presets =
     [(''concert'', \<lparr>reverb = 40, pitch = 0, speed = 1.0, delay = 25, chorus = 12\<rparr>),
      (''studio'', \<lparr>reverb = 15, pitch = 0, speed = 1.0, delay = 10, chorus = 8\<rparr>),
      (''radio'', \<lparr>reverb = 5, pitch = 1, speed = 1.0, delay = 0, chorus = 0\<rparr>),
      (''nightcore'', \<lparr>reverb = 10, pitch = 4, speed = 1.25, delay = 8, chorus = 30\<rparr>),
      (''slowed'', \<lparr>reverb = 60, pitch = -2, speed = 0.75, delay = 45, chorus = 16\<rparr>),
      (''default'', default_preset)]"

definition copy_config :: "preset_config \<Rightarrow> js_object" where
  \<comment> \<open>\<open>{ ...config }\<close>: the object the caller receives, property by property\<close>
  "copy_config c =
     [(''reverb'', reverb c), (''pitch'', pitch c), (''speed'', speed c),
      (''delay'', delay c), (''chorus'', chorus c)]"

definition applyPreset :: "string \<Rightarrow> engine \<Rightarrow> js_error + (js_object \<times> engine)" where
  \<comment> \<open>\<open>presets[preset] || presets['default']\<close>, for a name that is not a property every
      object inherits\<close>
  "applyPreset preset s =
     (let config = (case map_of presets preset of Some c \<Rightarrow> c | None \<Rightarrow> default_preset)
      in case setReverbMix (reverb config) s of
           Inl e \<Rightarrow> Inl e
         | Inr s1 \<Rightarrow>
             (case setDelayMix (delay config) (s1\<lparr>pitchShift := pitch config, playbackRate := speed config\<rparr>) of
                Inl e \<Rightarrow> Inl e
              | Inr s2 \<Rightarrow>
                  (case setChorusMix (chorus config) s2 of
                     Inl e \<Rightarrow> Inl e
                   | Inr s3 \<Rightarrow>
                       (case applyPlaybackRate s3 of
                          Inl e \<Rightarrow> Inl e
                        | Inr s4 \<Rightarrow> Inr (copy_config config, s4)))))"

text \<open>
  The second version of audio-engine.js (the "basic" engine) has the same transport fields
  and no delay or chorus; its \<open>applyPlaybackRate\<close> is the one above, line for line.
\<close>

record basic_preset_config =
  b_reverb :: real
  b_pitch :: real
  b_speed :: real

definition basic_presets :: "(string \<times> basic_preset_config) list" where
  "basic_presets =
     [(''concert'', \<lparr>b_reverb = 40, b_pitch = 0, b_speed = 1.0\<rparr>),
      (''studio'', \<lparr>b_reverb = 15, b_pitch = 0, b_speed = 1.0\<rparr>),
      (''radio'', \<lparr>b_reverb = 5, b_pitch = 1, b_speed = 1.0\<rparr>),
      (''nightcore'', \<lparr>b_reverb = 10, b_pitch = 4, b_speed = 1.25\<rparr>),
      (''slowed'', \<lparr>b_reverb = 60, b_pitch = -2, b_speed = 0.75\<rparr>),
      (''default'', \<lparr>b_reverb = 0, b_pitch = 0, b_speed = 1.0\<rparr>)]"

definition basic_config_object :: "basic_preset_config \<Rightarrow> js_object" where
  \<comment> \<open>the table entry itself is returned: three properties\<close>
  "basic_config_object c = [(''reverb'', b_reverb c), (''pitch'', b_pitch c), (''speed'', b_speed c)]"

definition basic_apply_reverb :: "engine \<Rightarrow> js_error + engine" where
  \<comment> \<open>the block "Apply reverb immediately" of the basic \<open>applyPreset\<close>\<close>
  "basic_apply_reverb s =
     (case (dryGain s, wetGain s) of
        (Some d, Some w) \<Rightarrow>
          (case audioContext s of
             None \<Rightarrow> Inl TypeError
           | Some ctx \<Rightarrow>
               let now = currentTime ctx
               in Inr (s\<lparr>dryGain := Some (d\<lparr>gain := ramp_to (1 - reverbMix s) now 0.2 (gain d)\<rparr>),
                          wetGain := Some (w\<lparr>gain := ramp_to (reverbMix s) now 0.2 (gain w)\<rparr>)\<rparr>))
      | _ \<Rightarrow> Inr s)"

definition basic_applyPreset :: "string \<Rightarrow> engine \<Rightarrow> js_error + (js_object \<times> engine)" where
  "basic_applyPreset preset s =
     (let config = (case map_of basic_presets preset of
                      Some c \<Rightarrow> c
                    | None \<Rightarrow> \<lparr>b_reverb = 0, b_pitch = 0, b_speed = 1.0\<rparr>);
          s1 = s\<lparr>reverbMix := b_reverb config / 100, pitchShift := b_pitch config,
                 playbackRate := b_speed config\<rparr>
      in case basic_apply_reverb s1 of
           Inl e \<Rightarrow> Inl e
         | Inr s2 \<Rightarrow>
             (case applyPlaybackRate s2 of
                Inl e \<Rightarrow> Inl e
              | Inr s3 \<Rightarrow> Inr (basic_config_object config, s3)))"

section \<open>Offline export\<close>

record offline_graph =
  og_channels :: nat
  og_length :: nat
  og_sampleRate :: nat
  og_values :: "(node_id \<times> real) list"
  og_connections :: connections

record export_outcome =
  result :: "audio_buffer option completion"
  rendering :: "offline_graph option"
  progress :: "real list"

definition offline_graph_of :: "engine \<Rightarrow> audio_buffer \<Rightarrow> gain_node \<Rightarrow> offline_graph" where
  \<comment> \<open>the offline context of \<open>exportProcessedAudio\<close> with the nodes it creates, the
      values it assigns and the connections it makes, in the order of the source.
      \<open>og_values\<close> holds the one value assigned on each node (\<open>playbackRate\<close> of the
      source, \<open>delayTime\<close> of a delay, \<open>frequency\<close> of the oscillator, \<open>gain\<close>
      otherwise).\<close>
  "offline_graph_of s buf g =
     (let baseDelay = 0.08;
          maxDelay = 0.6;
          delayTime' = baseDelay + (maxDelay - baseDelay) * delayMix s;
          delayFeedbackValue = 0.1 + delayMix s * 0.6;
          delayWetLevel = delayMix s * 0.9;
          chorusDepthValue = 0.001 + chorusMix s * 0.004;
          chorusRate = 0.3 + chorusMix s * 1.2;
          chorusWetLevel = chorusMix s * 0.8
      in \<lparr>og_channels = numberOfChannels buf, og_length = frames buf,
          og_sampleRate = sampleRate buf,
          og_values =
            [(SourceNode, actualPlaybackRate s),
             (GainNode, current_value (gain g)),
             (DryGain, 1 - reverbMix s),
             (WetGain, reverbMix s),
             (DelayInput, 1.0),
             (DelayNode, delayTime'),
             (DelayFeedback, delayFeedbackValue),
             (DelayWetGain, delayWetLevel),
             (ChorusInput, 1.0),
             (ChorusDelay, 0.015),
             (ChorusDepth, chorusDepthValue),
             (ChorusWetGain, chorusWetLevel),
             (ChorusLFO, chorusRate)],
          og_connections =
            connect_all
              [(DelayInput, DelayNode), (DelayNode, DelayFeedback),
               (DelayFeedback, DelayNode), (DelayNode, DelayWetGain),
               (ChorusLFO, ChorusDepth), (ChorusDepth, ChorusDelayTime),
               (ChorusInput, ChorusDelay), (ChorusDelay, ChorusWetGain),
               (SourceNode, GainNode), (GainNode, DryGain), (GainNode, ConvolverNode),
               (GainNode, DelayInput), (GainNode, ChorusInput),
               (ConvolverNode, WetGain), (DryGain, Destination),
               (WetGain, Destination), (DelayWetGain, Destination),
               (ChorusWetGain, Destination)] []\<rparr>)"

definition exportProcessedAudio ::
  "(offline_graph \<Rightarrow> js_error + audio_buffer) \<Rightarrow> bool \<Rightarrow> engine \<Rightarrow> export_outcome \<times> engine" where
  \<comment> \<open>\<open>render\<close> is the platform's \<open>startRendering\<close>; \<open>callback\<close> says whether a
      progress callback was passed. \<open>result\<close> is \<open>Returned None\<close> for \<open>null\<close>;
      \<open>rendering\<close> is the graph handed to \<open>startRendering\<close>, if that was reached;
      \<open>progress\<close> lists the values the callback was called with.\<close>
  "exportProcessedAudio render callback s =
     (case audioBuffer s of
        None \<Rightarrow> (\<lparr>result = Returned None, rendering = None, progress = []\<rparr>, s)
      | Some buf \<Rightarrow>
          let s1 = updateActualPlaybackRate s
          in (case gainNode s1 of
                None \<Rightarrow> (\<lparr>result = Thrown TypeError, rendering = None, progress = []\<rparr>, s1)
              | Some g \<Rightarrow>
                  let og = offline_graph_of s1 buf g
                  in (case render og of
                        Inl e \<Rightarrow> (\<lparr>result = Thrown e, rendering = Some og, progress = []\<rparr>, s1)
                      | Inr renderedBuffer \<Rightarrow>
                          (\<lparr>result = Returned (Some renderedBuffer), rendering = Some og,
                            progress = (if callback then [100] else [])\<rparr>, s1))))"

definition graph_nodes :: "connections \<Rightarrow> node_id list" where
  "graph_nodes g = remdups (map fst g @ map snd g)"

definition successors :: "connections \<Rightarrow> node_id \<Rightarrow> node_id list" where
  "successors g a = map snd (filter (\<lambda>c. fst c = a) g)"

section \<open>The WAV container (\<open>DeskSongApp.audioBufferToWav\<close>)\<close>

text \<open>
  The \<open>DataView\<close> over the new \<open>ArrayBuffer\<close> is a list of bytes, all zero at first;
  a write outside it is the platform's \<open>RangeError\<close>. Samples are finite numbers, so the
  products \<open>sample * 0x8000\<close> and \<open>sample * 0x7FFF\<close> are exact.
\<close>

type_synonym byte = nat

type_synonym data_view = "byte list"

definition view_setUint16 :: "nat \<Rightarrow> nat \<Rightarrow> data_view \<Rightarrow> js_error + data_view" where
  \<comment> \<open>\<open>view.setUint16(pos, data, true)\<close>: little-endian, the value taken modulo \<open>2^16\<close>\<close>
  "view_setUint16 pos d v =
     (if pos + 2 \<le> length v
      then Inr (v[pos := d mod 256, pos + 1 := (d div 256) mod 256])
      else Inl RangeError)"

definition view_setUint32 :: "nat \<Rightarrow> nat \<Rightarrow> data_view \<Rightarrow> js_error + data_view" where
  \<comment> \<open>\<open>view.setUint32(pos, data, true)\<close>: little-endian, the value taken modulo \<open>2^32\<close>\<close>
  "view_setUint32 pos d v =
     (if pos + 4 \<le> length v
      then Inr (v[pos := d mod 256, pos + 1 := (d div 256) mod 256,
                  pos + 2 := (d div 65536) mod 256, pos + 3 := (d div 16777216) mod 256])
      else Inl RangeError)"

definition js_trunc :: "real \<Rightarrow> int" where
  \<comment> \<open>the integer part of a number, rounding towards zero\<close>
  "js_trunc x = (if x < 0 then - \<lfloor>- x\<rfloor> else \<lfloor>x\<rfloor>)"

definition view_setInt16 :: "nat \<Rightarrow> real \<Rightarrow> data_view \<Rightarrow> js_error + data_view" where
  \<comment> \<open>\<open>view.setInt16(pos, x, true)\<close>: \<open>x\<close> is truncated, then stored in two's complement\<close>
  "view_setInt16 pos x v = view_setUint16 pos (nat (js_trunc x mod 65536)) v"

datatype header_field = U16 nat | U32 nat

fun put_field :: "header_field \<Rightarrow> data_view \<times> nat \<Rightarrow> js_error + data_view \<times> nat" where
  \<comment> \<open>the closures \<open>setUint16\<close> and \<open>setUint32\<close>: write at \<open>pos\<close>, then advance it\<close>
  "put_field (U16 d) (v, pos) =
     (case view_setUint16 pos d v of Inl e \<Rightarrow> Inl e | Inr v' \<Rightarrow> Inr (v', pos + 2))"
| "put_field (U32 d) (v, pos) =
     (case view_setUint32 pos d v of Inl e \<Rightarrow> Inl e | Inr v' \<Rightarrow> Inr (v', pos + 4))"

fun put_fields :: "header_field list \<Rightarrow> data_view \<times> nat \<Rightarrow> js_error + data_view \<times> nat" where
  "put_fields [] vp = Inr vp"
| "put_fields (f # fs) vp =
     (case put_field f vp of Inl e \<Rightarrow> Inl e | Inr vp' \<Rightarrow> put_fields fs vp')"

definition pcm_sample :: "real \<Rightarrow> real" where
  \<comment> \<open>\<open>Math.max(-1, Math.min(1, x))\<close>, then \<open>sample < 0 ? sample * 0x8000 : sample * 0x7FFF\<close>\<close>
  "pcm_sample x =
     (let sample = max (-1) (min 1 x)
      in if sample < 0 then sample * 32768 else sample * 32767)"

fun write_frame :: "real list list \<Rightarrow> nat \<Rightarrow> data_view \<times> nat \<Rightarrow> js_error + data_view \<times> nat" where
  \<comment> \<open>the inner \<open>for\<close> loop: one sample of every channel at \<open>offset\<close>. A read past the
      end of a channel gives \<open>undefined\<close>, which ends as the 16-bit value 0.\<close>
  "write_frame [] offset vp = Inr vp"
| "write_frame (ch # chs) offset (v, pos) =
     (case (if offset < length ch then view_setInt16 pos (pcm_sample (ch ! offset)) v
            else view_setUint16 pos 0 v) of
        Inl e \<Rightarrow> Inl e
      | Inr v' \<Rightarrow> write_frame chs offset (v', pos + 2))"

partial_function (option) write_frames ::
  "real list list \<Rightarrow> nat \<Rightarrow> nat \<Rightarrow> data_view \<times> nat \<Rightarrow> (js_error + data_view) option" where
  \<comment> \<open>\<open>while (pos < length) { ...; offset++ }\<close>; \<open>None\<close> would be a loop that never ends\<close>
  "write_frames channels len offset vp =
     (if snd vp < len then
        (case write_frame channels offset vp of
           Inl e \<Rightarrow> Some (Inl e)
         | Inr vp' \<Rightarrow> write_frames channels len (offset + 1) vp')
      else Some (Inr (fst vp)))"

definition audioBufferToWav :: "audio_buffer \<Rightarrow> (js_error + data_view) option" where
  "audioBufferToWav buffer =
     (let len = frames buffer * numberOfChannels buffer * 2 + 44;
          view = replicate len 0
      in case put_fields
                [U32 0x46464952, U32 (len - 8), U32 0x45564157,
                 U32 0x20746d66, U32 16, U16 1, U16 (numberOfChannels buffer),
                 U32 (sampleRate buffer),
                 U32 (sampleRate buffer * 2 * numberOfChannels buffer),
                 U16 (numberOfChannels buffer * 2), U16 16,
                 U32 0x61746164] (view, 0) of
           Inl e \<Rightarrow> Some (Inl e)
         | Inr (v1, pos1) \<Rightarrow>
             (case put_field (U32 (len - pos1 - 4)) (v1, pos1) of
                Inl e \<Rightarrow> Some (Inl e)
              | Inr vp \<Rightarrow> write_frames (channelData buffer) len 0 vp))"

subsection \<open>Reading a container back\<close>

definition u16_at :: "data_view \<Rightarrow> nat \<Rightarrow> nat" where
  "u16_at v i = v ! i + 256 * v ! (i + 1)"

definition u32_at :: "data_view \<Rightarrow> nat \<Rightarrow> nat" where
  "u32_at v i = v ! i + 256 * v ! (i + 1) + 65536 * v ! (i + 2) + 16777216 * v ! (i + 3)"

definition s16_at :: "data_view \<Rightarrow> nat \<Rightarrow> int" where
  \<comment> \<open>a little-endian signed 16-bit value\<close>
  "s16_at v i = (if u16_at v i < 32768 then int (u16_at v i) else int (u16_at v i) - 65536)"

definition ascii :: "string \<Rightarrow> byte list" where
  "ascii cs = map (\<lambda>c. of_char c) cs"

subsection \<open>The layout the specification gives (section 6)\<close>

text \<open>
  The 44-byte header in the words of the specification: \<open>"RIFF"\<close>, the chunk size (file
  length minus 8) as a little-endian u32, \<open>"WAVE"\<close>; \<open>"fmt "\<close>, 16, PCM tag 1, channel
  count, sample rate, byte rate, block align, 16 bits per sample; \<open>"data"\<close> and the length
  of the sample data.
\<close>

definition le16 :: "nat \<Rightarrow> byte list" where
  "le16 d = [d mod 256, (d div 256) mod 256]"

definition le32 :: "nat \<Rightarrow> byte list" where
  "le32 d = [d mod 256, (d div 256) mod 256, (d div 65536) mod 256, (d div 16777216) mod 256]"

fun field_bytes :: "header_field \<Rightarrow> byte list" where
  "field_bytes (U16 d) = le16 d"
| "field_bytes (U32 d) = le32 d"

definition wav_header :: "nat \<Rightarrow> nat \<Rightarrow> nat \<Rightarrow> byte list" where
  "wav_header N C R =
     ascii ''RIFF'' @ le32 (N * C * 2 + 44 - 8) @ ascii ''WAVE''
     @ ascii ''fmt '' @ le32 16 @ le16 1 @ le16 C @ le32 R @ le32 (R * 2 * C)
     @ le16 (C * 2) @ le16 16
     @ ascii ''data'' @ le32 (N * C * 2)"

definition sample_word :: "real list \<Rightarrow> nat \<Rightarrow> nat" where
  \<comment> \<open>the 16-bit word \<open>write_frame\<close> stores for sample \<open>k\<close> of a channel\<close>
  "sample_word ch k = (if k < length ch then nat (js_trunc (pcm_sample (ch ! k)) mod 65536) else 0)"

section \<open>Concrete scenarios\<close>

definition ten_second_track :: audio_buffer where
  \<comment> \<open>ten seconds of mono silence at 44.1 kHz\<close>
  "ten_second_track = \<lparr>sampleRate = 44100, frames = 441000, channelData = [replicate 441000 0]\<rparr>"

definition fresh_engine :: engine where
  \<comment> \<open>the engine after the constructor and a successful \<open>initializeAudioContext\<close>\<close>
  "fresh_engine = initializeAudioContext (Some \<lparr>ctx_state = Running, currentTime = 0\<rparr>) new_engine"

definition loaded_engine :: engine where
  \<comment> \<open>\<open>fresh_engine\<close> after \<open>loadAudioFile\<close> decoded \<open>ten_second_track\<close>\<close>
  "loaded_engine = snd (loadAudioFile (\<lambda>bytes. Inr ten_second_track) () fresh_engine)"

definition two_second_stereo :: audio_buffer where
  \<comment> \<open>the buffer of the export scenario: 2 channels, 44100 Hz, 88200 samples each\<close>
  "two_second_stereo =
     \<lparr>sampleRate = 44100, frames = 88200, channelData = [replicate 88200 0, replicate 88200 0]\<rparr>"

definition small_stereo :: audio_buffer where
  "small_stereo = \<lparr>sampleRate = 8000, frames = 2, channelData = [[0.5, -1], [2, -0.25]]\<rparr>"

definition failing_decoder :: "unit \<Rightarrow> js_error + audio_buffer" where
  \<comment> \<open>\<open>decodeAudioData\<close> rejecting its input\<close>
  "failing_decoder bytes = Inl EncodingError"

definition demo_app :: app where
  \<comment> \<open>the application with \<open>loaded_engine\<close> and one more track in the playlist\<close>
  "demo_app =
     \<lparr>audioEngine = loaded_engine,
      tracks = [\<lparr>path = ''broken.mp3'', name = ''broken'', track_duration = 0\<rparr>],
      currentIndex = -1, notifications = [], playButton = False\<rparr>"

section \<open>Verified properties\<close>

subsection \<open>Facts about the scenarios\<close>

lemma fresh_engine_fields:
  "audioContext fresh_engine = Some \<lparr>ctx_state = Running, currentTime = 0\<rparr>"
  "audioBuffer fresh_engine = None"
  "isPlaying fresh_engine = False"
  "sourceNode fresh_engine = None"
  "pauseTime fresh_engine = 0"
  "startTime fresh_engine = 0"
  "playbackRate fresh_engine = 1"
  "preservePitch fresh_engine = True"
  "gainNode fresh_engine = Some \<lparr>gain = new_param 1\<rparr>"
  by (simp_all add: fresh_engine_def initializeAudioContext_def new_engine_def create_nodes_def
      setupAudioChain_def setDelayMix_def setChorusMix_def Let_def)

lemma loaded_engine_fields:
  "audioContext loaded_engine = Some \<lparr>ctx_state = Running, currentTime = 0\<rparr>"
  "audioBuffer loaded_engine = Some ten_second_track"
  "isPlaying loaded_engine = False"
  "sourceNode loaded_engine = None"
  "pauseTime loaded_engine = 0"
  "startTime loaded_engine = 0"
  "playbackRate loaded_engine = 1"
  "preservePitch loaded_engine = True"
  "gainNode loaded_engine = Some \<lparr>gain = new_param 1\<rparr>"
  by (simp_all add: loaded_engine_def loadAudioFile_def fresh_engine_fields Let_def)

lemma duration_ten_second_track: "duration ten_second_track = 10"
  by (simp add: duration_def ten_second_track_def)

lemma duration_nonneg: "0 \<le> duration buf"
  by (simp add: duration_def)

lemma play_loaded_engine:
  "\<exists>e. play loaded_engine = Inr e \<and> isPlaying e \<and> sourceNode e \<noteq> None
        \<and> audioBuffer e = Some ten_second_track
        \<and> audioContext e = Some \<lparr>ctx_state = Running, currentTime = 0\<rparr>
        \<and> pauseTime e = 0 \<and> startTime e = 0 \<and> actualPlaybackRate e = 1"
  by (simp add: play_def loaded_engine_fields updateActualPlaybackRate_def setupAudioChain_def
      createBufferSource_def Let_def)

subsection \<open>The playback clock\<close>

lemma getCurrentTime_after_play:
  assumes "audioBuffer s = Some buf" and "\<not> isPlaying s" and "audioContext s = Some ctx"
    and "gainNode s \<noteq> None" and "0 \<le> pauseTime s" and "playbackRate s \<noteq> 0"
    and "preservePitch s"
  shows "\<exists>s'. play s = Inr s' \<and>
           getCurrentTime (advance_clock dt s')
             = Inr (min (2 * pauseTime s + dt * playbackRate s) (duration buf))"
  using assms
  by (auto simp: play_def getCurrentTime_def advance_clock_def render_nodes_def
      updateActualPlaybackRate_def setupAudioChain_def Let_def algebra_simps split: option.splits)

lemma getCurrentTime_after_play_from_zero:
  assumes "audioBuffer s = Some buf" and "\<not> isPlaying s" and "audioContext s = Some ctx"
    and "gainNode s \<noteq> None" and "pauseTime s = 0" and "playbackRate s \<noteq> 0"
    and "preservePitch s"
  shows "\<exists>s'. play s = Inr s' \<and>
           getCurrentTime (advance_clock dt s') = Inr (min (dt * playbackRate s) (duration buf))"
  using getCurrentTime_after_play [OF assms(1-4) _ assms(6,7), of dt] assms(5) by simp

text \<open>
  C1 (the code departs from the claim). The claim: after \<open>play()\<close> at logical offset
  \<open>priorOffset\<close>, with no rate change, \<open>getCurrentTime()\<close> returns
  \<open>priorOffset + \<Delta> * speed\<close> after \<open>\<Delta>\<close> seconds. \<open>play\<close> moves \<open>startTime\<close>
  back by \<open>offset / rate\<close> and keeps \<open>pauseTime = offset\<close>, and \<open>getCurrentTime\<close>
  adds both, so the offset is counted twice (\<open>getCurrentTime_after_play\<close>); the claim
  holds only from offset 0. The scenario: a ten-second track at speed 1 is played for
  3 seconds, paused (position 3) and played again; the position read at once is 6, and one
  second later 7, where the claim says 3 and 4.
\<close>

theorem resume_counts_offset_twice:
  "\<exists>e2 e3 e4. play loaded_engine = Inr e2
     \<and> getCurrentTime (advance_clock 3 e2) = Inr 3
     \<and> pause (advance_clock 3 e2) = Inr e3 \<and> getCurrentTime e3 = Inr 3
     \<and> play e3 = Inr e4
     \<and> getCurrentTime e4 = Inr 6
     \<and> getCurrentTime (advance_clock 1 e4) = Inr 7"
  by (simp add: play_def pause_def getCurrentTime_def advance_clock_def render_nodes_def
      loaded_engine_fields duration_ten_second_track updateActualPlaybackRate_def setupAudioChain_def
      stop_and_disconnect_def stop_source_def createBufferSource_def Let_def)

text \<open>
  C8. For a loaded track of duration \<open>D\<close> and any target \<open>t\<close>, \<open>seek(t)\<close> succeeds and
  \<open>getCurrentTime()\<close> called right after it returns the target clamped to \<open>[0, D]\<close>:
  0 for \<open>t < 0\<close>, \<open>D\<close> for \<open>t > D\<close>, \<open>t\<close> itself otherwise. The engine state is
  arbitrary, so this covers a seek while playing (the resume is a timer that has not fired
  yet) and a seek while paused.
\<close>

theorem seek_then_getCurrentTime:
  assumes "audioBuffer s = Some buf" and "audioContext s = Some ctx"
  shows "\<exists>s'. seek t s = Inr s'
           \<and> getCurrentTime s' = Inr (max 0 (min t (duration buf)))
           \<and> 0 \<le> max 0 (min t (duration buf))
           \<and> max 0 (min t (duration buf)) \<le> duration buf
           \<and> (t < 0 \<longrightarrow> getCurrentTime s' = Inr 0)
           \<and> (duration buf < t \<longrightarrow> getCurrentTime s' = Inr (duration buf))
           \<and> (0 \<le> t \<and> t \<le> duration buf \<longrightarrow> getCurrentTime s' = Inr t)"
proof -
  have "\<exists>s'. seek t s = Inr s' \<and> getCurrentTime s' = Inr (max 0 (min t (duration buf)))"
    using assms
    by (auto simp: seek_def getCurrentTime_def Let_def stop_and_disconnect_def
        split: option.splits sum.splits)
  then obtain s' where s': "seek t s = Inr s'"
      "getCurrentTime s' = Inr (max 0 (min t (duration buf)))"
    by blast
  have d: "0 \<le> duration buf" by (rule duration_nonneg)
  from d have "max 0 (min t (duration buf)) \<le> duration buf" by simp
  moreover from d have "t < 0 \<longrightarrow> max 0 (min t (duration buf)) = 0" by simp
  moreover from d have "duration buf < t \<longrightarrow> max 0 (min t (duration buf)) = duration buf"
    by simp
  moreover have "0 \<le> t \<and> t \<le> duration buf \<longrightarrow> max 0 (min t (duration buf)) = t" by simp
  ultimately show ?thesis using s' by auto
qed

theorem seek_then_getCurrentTime_witness:
  "\<exists>e2 e3 e4. play loaded_engine = Inr e2 \<and> isPlaying e2
     \<and> seek 25 (advance_clock 3 e2) = Inr e3 \<and> getCurrentTime e3 = Inr 10
     \<and> seek (-1) e3 = Inr e4 \<and> getCurrentTime e4 = Inr 0"
proof -
  obtain e2 where e2: "play loaded_engine = Inr e2" "isPlaying e2"
      "audioBuffer e2 = Some ten_second_track"
      "audioContext e2 = Some \<lparr>ctx_state = Running, currentTime = 0\<rparr>"
    using play_loaded_engine by blast
  have a: "audioBuffer (advance_clock 3 e2) = Some ten_second_track"
    and c: "audioContext (advance_clock 3 e2) = Some \<lparr>ctx_state = Running, currentTime = 3\<rparr>"
    using e2 by (simp_all add: advance_clock_def render_nodes_def)
  from seek_then_getCurrentTime [OF a c, of 25]
  obtain e3 where e3: "seek 25 (advance_clock 3 e2) = Inr e3" "getCurrentTime e3 = Inr 10"
    by (auto simp: duration_ten_second_track)
  have a3: "audioBuffer e3 = Some ten_second_track"
    and c3: "audioContext e3 = Some \<lparr>ctx_state = Running, currentTime = 3\<rparr>"
    using e3(1) a c
    by (auto simp: seek_def Let_def stop_and_disconnect_def split: if_splits option.splits sum.splits)
  from seek_then_getCurrentTime [OF a3 c3, of "-1"]
  obtain e4 where "seek (-1) e3 = Inr e4" "getCurrentTime e4 = Inr 0"
    by (auto simp: duration_ten_second_track)
  with e2 e3 show ?thesis by blast
qed

text \<open>
  C9. From any state, \<open>stop()\<close> returns normally, a second \<open>stop()\<close> returns normally
  too and changes nothing more, and afterwards the engine is not playing, its logical
  offset is 0 and \<open>getCurrentTime()\<close> is 0. The same holds for the stop of
  \<open>AdvancedAudioEngine\<close>. What \<open>sourceNode.stop()\<close> throws on a node that is not
  playing is swallowed by the \<open>try\<close> blocks.
\<close>

theorem stop_twice:
  "(\<exists>s1. stop s = Inr s1 \<and> stop s1 = Inr s1
        \<and> pauseTime s1 = 0 \<and> isPlaying s1 = False \<and> sourceNode s1 = None
        \<and> getCurrentTime s1 = Inr 0)
   \<and> (\<exists>a1. adv_stop a = Inr a1 \<and> adv_stop a1 = Inr a1
        \<and> adv_pauseTime a1 = 0 \<and> adv_isPlaying a1 = False \<and> adv_isCrossfading a1 = False
        \<and> adv_sourceNode a1 = None \<and> adv_nextSourceNode a1 = None
        \<and> adv_getCurrentTime a1 = Inr 0)"
proof
  show "\<exists>s1. stop s = Inr s1 \<and> stop s1 = Inr s1
        \<and> pauseTime s1 = 0 \<and> isPlaying s1 = False \<and> sourceNode s1 = None
        \<and> getCurrentTime s1 = Inr 0"
    by (auto simp: stop_def getCurrentTime_def Let_def stop_and_disconnect_def
        split: option.splits sum.splits)
  show "\<exists>a1. adv_stop a = Inr a1 \<and> adv_stop a1 = Inr a1
        \<and> adv_pauseTime a1 = 0 \<and> adv_isPlaying a1 = False \<and> adv_isCrossfading a1 = False
        \<and> adv_sourceNode a1 = None \<and> adv_nextSourceNode a1 = None
        \<and> adv_getCurrentTime a1 = Inr 0"
    by (auto simp: adv_stop_def adv_getCurrentTime_def Let_def split: option.splits sum.splits)
qed

subsection \<open>Parameter automation\<close>

lemma insert_event_after:
  "list_all (\<lambda>x. event_time x < event_time e) xs \<Longrightarrow> insert_event e xs = xs @ [e]"
  by (induction xs) auto

lemma timeline_value_passed:
  "list_all (\<lambda>x. event_time x \<le> t) xs \<Longrightarrow> te \<le> t \<Longrightarrow>
   timeline_value v0 t0 (xs @ SetValueAtTime v te # es) t = timeline_value v te es t"
proof (induction xs arbitrary: v0 t0)
  case Nil
  then show ?case by simp
next
  case (Cons x xs)
  then show ?case by (cases x) auto
qed

lemma ramp_to_timeline:
  assumes "0 < d"
  shows "timeline (ramp_to target now d p)
           = filter (\<lambda>e. event_time e < now) (timeline p)
             @ [SetValueAtTime (current_value p) now, LinearRampToValueAtTime target (now + d)]"
    and "current_value (ramp_to target now d p) = current_value p"
proof -
  let ?old = "filter (\<lambda>e. event_time e < now) (timeline p)"
  have a: "list_all (\<lambda>x. event_time x < now) ?old"
    by (simp add: list_all_iff)
  have 1: "insert_event (SetValueAtTime (current_value p) now) ?old
             = ?old @ [SetValueAtTime (current_value p) now]"
    by (rule insert_event_after) (use a in simp)
  have b: "list_all (\<lambda>x. event_time x < now + d) (?old @ [SetValueAtTime (current_value p) now])"
    using assms by (auto simp: list_all_iff)
  have 2: "insert_event (LinearRampToValueAtTime target (now + d))
             (?old @ [SetValueAtTime (current_value p) now])
           = (?old @ [SetValueAtTime (current_value p) now]) @ [LinearRampToValueAtTime target (now + d)]"
    by (rule insert_event_after) (use b in simp)
  have 3: "filter (\<lambda>e. event_time e \<le> now + d) (?old @ [SetValueAtTime (current_value p) now]) \<noteq> []"
    using assms by simp
  show "timeline (ramp_to target now d p)
           = ?old @ [SetValueAtTime (current_value p) now, LinearRampToValueAtTime target (now + d)]"
    using assms 1 2 3
    by (simp add: ramp_to_def cancelScheduledValues_def setValueAtTime_def
        linearRampToValueAtTime_def Let_def)
  show "current_value (ramp_to target now d p) = current_value p"
    by (simp add: ramp_to_def cancelScheduledValues_def setValueAtTime_def
        linearRampToValueAtTime_def Let_def)
qed

lemma ramp_to_value:
  assumes "0 < d" and "now \<le> t"
  shows "param_value_at (ramp_to target now d p) t = linear_ramp (current_value p) target now d t"
proof -
  have "list_all (\<lambda>x. event_time x \<le> t) (filter (\<lambda>e. event_time e < now) (timeline p))"
    using assms(2) by (auto simp: list_all_iff)
  then show ?thesis
    using assms
    by (simp add: param_value_at_def ramp_to_timeline timeline_value_passed linear_ramp_def)
qed

lemma linear_ramp_start: "0 < d \<Longrightarrow> linear_ramp c target now d now = c"
  by (simp add: linear_ramp_def)

lemma linear_ramp_end: "now + d \<le> t \<Longrightarrow> linear_ramp c target now d t = target"
  by (simp add: linear_ramp_def)

lemma linear_ramp_distance:
  assumes "0 < d" and "now \<le> t"
  shows "linear_ramp c target now d t - target = (c - target) * (1 - min 1 ((t - now) / d))"
proof (cases "t < now + d")
  case True
  then have "(t - now) / d < 1" using assms by (simp add: field_simps)
  then have m: "min 1 ((t - now) / d) = (t - now) / d" by simp
  have h: "c + (target - c) * x - target = (c - target) * (1 - x)" for x :: real
    by (simp add: algebra_simps)
  have "linear_ramp c target now d t - target = c + (target - c) * ((t - now) / d) - target"
    using True by (simp add: linear_ramp_def)
  also have "\<dots> = (c - target) * (1 - (t - now) / d)" by (rule h)
  finally show ?thesis by (simp only: m)
next
  case False
  then have "1 \<le> (t - now) / d" using assms by (simp add: field_simps)
  then have "min 1 ((t - now) / d) = 1" by simp
  then show ?thesis using False by (simp add: linear_ramp_def)
qed

lemma linear_ramp_approaches:
  assumes "0 < d" and "now \<le> t" and "t \<le> t'"
  shows "\<bar>linear_ramp c target now d t' - target\<bar> \<le> \<bar>linear_ramp c target now d t - target\<bar>"
proof -
  have x: "(t - now) / d \<le> (t' - now) / d"
    using assms by (simp add: divide_right_mono)
  have x0: "0 \<le> (t - now) / d" using assms by simp
  let ?a = "1 - min 1 ((t - now) / d)" and ?b = "1 - min 1 ((t' - now) / d)"
  have ab: "0 \<le> ?b" "?b \<le> ?a" using x by auto
  have "\<bar>(c - target) * ?b\<bar> = \<bar>c - target\<bar> * ?b"
    using ab by (simp add: abs_mult)
  also have "\<dots> \<le> \<bar>c - target\<bar> * ?a"
    using ab by (intro mult_left_mono) auto
  also have "\<dots> = \<bar>(c - target) * ?a\<bar>"
    using ab by (simp add: abs_mult)
  finally show ?thesis
    using assms by (simp add: linear_ramp_distance)
qed

lemma linear_ramp_between:
  assumes "0 < d" and "now \<le> t"
  shows "min c target \<le> linear_ramp c target now d t \<and> linear_ramp c target now d t \<le> max c target"
proof -
  let ?x = "min 1 ((t - now) / d)"
  have x: "0 \<le> ?x" "?x \<le> 1" using assms by auto
  have eq: "linear_ramp c target now d t = target + (c - target) * (1 - ?x)"
    using linear_ramp_distance [OF assms, of c target] by simp
  define y where "y = (c - target) * (1 - ?x)"
  have eq': "linear_ramp c target now d t = target + y"
    using eq by (simp add: y_def)
  show ?thesis
  proof (cases "c \<le> target")
    case True
    have "y \<le> 0"
      unfolding y_def using True x by (intro mult_nonpos_nonneg) auto
    moreover have "(c - target) * 1 \<le> y"
      unfolding y_def using True x by (intro mult_left_mono_neg) auto
    ultimately show ?thesis using True eq' by (simp add: min_def max_def)
  next
    case False
    have "0 \<le> y"
      unfolding y_def using False x by (intro mult_nonneg_nonneg) auto
    moreover have "y \<le> (c - target) * 1"
      unfolding y_def using False x by (intro mult_left_mono) auto
    ultimately show ?thesis using False eq' by (simp add: min_def max_def)
  qed
qed

lemma linear_ramp_falls:
  assumes "0 < d" and "now \<le> t" and "t \<le> t'" and "target \<le> c"
  shows "linear_ramp c target now d t' \<le> linear_ramp c target now d t"
proof -
  have x: "(t - now) / d \<le> (t' - now) / d"
    using assms by (simp add: divide_right_mono)
  let ?a = "1 - min 1 ((t - now) / d)" and ?b = "1 - min 1 ((t' - now) / d)"
  have ab: "?b \<le> ?a" using x by auto
  have "(c - target) * ?b \<le> (c - target) * ?a"
    using ab assms(4) by (intro mult_left_mono) auto
  then show ?thesis
    using linear_ramp_distance [OF assms(1,2), of c target]
      linear_ramp_distance [OF assms(1), of now t' c target] assms by simp
qed

lemma linear_ramp_lipschitz:
  assumes "0 < d" and "now \<le> t" and "t \<le> t'"
  shows "\<bar>linear_ramp c target now d t' - linear_ramp c target now d t\<bar>
           \<le> \<bar>target - c\<bar> / d * (t' - t)"
proof -
  let ?x = "min 1 ((t - now) / d)" and ?x' = "min 1 ((t' - now) / d)"
  have x: "(t - now) / d \<le> (t' - now) / d"
    using assms by (simp add: divide_right_mono)
  have d1: "0 \<le> ?x' - ?x" using x by auto
  have "(t' - now) / d - (t - now) / d = (t' - t) / d"
    by (simp add: diff_divide_distrib)
  then have d2: "?x' - ?x \<le> (t' - t) / d" using x by auto
  have "linear_ramp c target now d t' - linear_ramp c target now d t
          = (c - target) * (1 - ?x') - (c - target) * (1 - ?x)"
    using linear_ramp_distance [OF assms(1,2), of c target]
      linear_ramp_distance [OF assms(1), of now t' c target] assms by simp
  also have "\<dots> = (target - c) * (?x' - ?x)" by (simp add: algebra_simps)
  finally have "\<bar>linear_ramp c target now d t' - linear_ramp c target now d t\<bar>
                  = \<bar>target - c\<bar> * (?x' - ?x)"
    using d1 by (simp add: abs_mult)
  also have "\<dots> \<le> \<bar>target - c\<bar> * ((t' - t) / d)"
    using d2 by (intro mult_left_mono) auto
  finally show ?thesis by simp
qed

lemma insert_set_event:
  "SetValueAtTime v t \<in> set (insert_event (SetValueAtTime v t) xs)"
  "filter is_ramp (insert_event (SetValueAtTime v t) xs) = filter is_ramp xs"
  by (induction xs) auto

lemma setValueAtTime_steps:
  "SetValueAtTime v t \<in> set (timeline (setValueAtTime v t p))"
  "filter is_ramp (timeline (setValueAtTime v t p)) = filter is_ramp (timeline p)"
  "current_value (setValueAtTime v t p) = current_value p"
  by (simp_all add: setValueAtTime_def insert_set_event)

lemma setVolume_ramps:
  assumes "audioContext s = Some ctx" and "gainNode s = Some g" and "currentTime ctx \<le> t"
  shows "\<exists>s' g'. setVolume v s = Inr s' \<and> gainNode s' = Some g'
           \<and> param_value_at (gain g') t
               = linear_ramp (current_value (gain g)) (v / 100) (currentTime ctx) 0.05 t"
  using assms by (simp add: setVolume_def Let_def ramp_to_value)

lemma setReverbMix_ramps:
  assumes "audioContext s = Some ctx" and "dryGain s = Some dg" and "wetGain s = Some wg"
    and "currentTime ctx \<le> t"
  shows "\<exists>s' dg' wg'. setReverbMix v s = Inr s' \<and> dryGain s' = Some dg' \<and> wetGain s' = Some wg'
           \<and> param_value_at (gain dg') t
               = linear_ramp (current_value (gain dg)) (1 - v / 100) (currentTime ctx) 0.1 t
           \<and> param_value_at (gain wg') t
               = linear_ramp (current_value (gain wg)) (v / 100) (currentTime ctx) 0.1 t"
  using assms by (simp add: setReverbMix_def Let_def ramp_to_value)

lemma setBassBoost_ramps:
  assumes "audioContext s = Some ctx" and "bassFilter s = Some bf" and "currentTime ctx \<le> t"
  shows "\<exists>s' bf'. setBassBoost v s = Inr s' \<and> bassFilter s' = Some bf'
           \<and> param_value_at (bq_gain bf') t
               = linear_ramp (current_value (bq_gain bf)) ((v / 100) * 20) (currentTime ctx) 0.1 t"
  using assms by (simp add: setBassBoost_def Let_def ramp_to_value)

lemma setDelayMix_ramps:
  assumes "audioContext s = Some ctx" and "delayNode s = Some dn" and "delayFeedback s = Some fb"
    and "delayWetGain s = Some dw" and "currentTime ctx \<le> t"
  shows "\<exists>s' dn' fb' dw'. setDelayMix v s = Inr s' \<and> delayNode s' = Some dn'
           \<and> delayFeedback s' = Some fb' \<and> delayWetGain s' = Some dw'
           \<and> param_value_at (delayTime dn') t
               = linear_ramp (current_value (delayTime dn))
                   (0.08 + (0.6 - 0.08) * (max 0 (min 100 v) / 100)) (currentTime ctx) 0.12 t
           \<and> param_value_at (gain fb') t
               = linear_ramp (current_value (gain fb))
                   (0.1 + (max 0 (min 100 v) / 100) * 0.6) (currentTime ctx) 0.12 t
           \<and> param_value_at (gain dw') t
               = linear_ramp (current_value (gain dw))
                   ((max 0 (min 100 v) / 100) * 0.9) (currentTime ctx) 0.12 t"
  using assms by (simp add: setDelayMix_def Let_def ramp_to_value)

lemma setChorusMix_ramps_and_steps:
  assumes "audioContext s = Some ctx" and "chorusDepth s = Some cd" and "chorusLFO s = Some lfo"
    and "chorusWetGain s = Some cw" and "currentTime ctx \<le> t"
  shows "\<exists>s' cd' lfo' cw'. setChorusMix v s = Inr s' \<and> chorusDepth s' = Some cd'
           \<and> chorusLFO s' = Some lfo' \<and> chorusWetGain s' = Some cw'
           \<and> param_value_at (gain cd') t
               = linear_ramp (current_value (gain cd))
                   (0.001 + (max 0 (min 100 v) / 100) * 0.004) (currentTime ctx) 0.12 t
           \<and> param_value_at (gain cw') t
               = linear_ramp (current_value (gain cw))
                   ((max 0 (min 100 v) / 100) * 0.8) (currentTime ctx) 0.12 t
           \<and> SetValueAtTime (0.3 + (max 0 (min 100 v) / 100) * 1.2) (currentTime ctx)
                 \<in> set (timeline (osc_frequency lfo'))
           \<and> filter is_ramp (timeline (osc_frequency lfo'))
                 = filter is_ramp (timeline (osc_frequency lfo))"
  using assms by (simp add: setChorusMix_def Let_def ramp_to_value setValueAtTime_steps)

lemma setCompressor_steps:
  assumes "audioContext s = Some ctx" and "compressor s = Some c"
  shows "\<exists>s' c'. setCompressor v s = Inr s' \<and> compressor s' = Some c'
           \<and> SetValueAtTime (-50 + (v / 100) * 40) (currentTime ctx) \<in> set (timeline (threshold c'))
           \<and> filter is_ramp (timeline (threshold c')) = filter is_ramp (timeline (threshold c))
           \<and> SetValueAtTime (4 + (v / 100) * 16) (currentTime ctx) \<in> set (timeline (ratio c'))
           \<and> filter is_ramp (timeline (ratio c')) = filter is_ramp (timeline (ratio c))"
  using assms by (simp add: setCompressor_def Let_def setValueAtTime_steps)

lemma fresh_engine_nodes:
  "gainNode fresh_engine = Some \<lparr>gain = new_param 1\<rparr>"
  "dryGain fresh_engine = Some \<lparr>gain = new_param 1\<rparr>"
  "wetGain fresh_engine = Some \<lparr>gain = new_param 0\<rparr>"
  "bassFilter fresh_engine
     = Some \<lparr>bq_frequency = new_param 250, bq_Q = new_param 0.7, bq_gain = new_param 0\<rparr>"
  "compressor fresh_engine
     = Some \<lparr>threshold = new_param (-24), knee = new_param 30, ratio = new_param 12,
             attack = new_param 0.003, release = new_param 0.25\<rparr>"
  "delayNode fresh_engine \<noteq> None" "delayFeedback fresh_engine \<noteq> None"
  "delayWetGain fresh_engine \<noteq> None" "chorusDepth fresh_engine \<noteq> None"
  "chorusLFO fresh_engine \<noteq> None" "chorusWetGain fresh_engine \<noteq> None"
  by (simp_all add: fresh_engine_def initializeAudioContext_def new_engine_def create_nodes_def
      setupAudioChain_def setDelayMix_def setChorusMix_def Let_def)

lemma advance_clock_gain:
  assumes "audioContext s = Some ctx" and "gainNode s = Some g"
  shows "audioContext (advance_clock dt s) = Some (ctx\<lparr>currentTime := currentTime ctx + dt\<rparr>)"
    and "gainNode (advance_clock dt s) = Some (g\<lparr>gain := render_param (currentTime ctx + dt) (gain g)\<rparr>)"
  using assms by (simp_all add: advance_clock_def render_nodes_def render_gain_def)

text \<open>
  C6 (corrected). The claim: every knob setter schedules a ramp from the parameter's current
  value to the new target, never a jump. What the setters do, with the engine initialised,
  at the context time \<open>now\<close> and for every later time \<open>t\<close>:
  \<^item> \<open>setVolume\<close>, \<open>setReverbMix\<close>, \<open>setBassBoost\<close> and \<open>setDelayMix\<close> put every
    parameter they change on a straight line from its current value to the target, over
    0.05 s, 0.1 s, 0.1 s and 0.12 s;
  \<^item> \<open>setChorusMix\<close> does the same for the chorus depth and wet gain (0.12 s) and sets
    the LFO rate by \<open>setValueAtTime\<close>, adding no ramp;
  \<^item> \<open>setCompressor\<close> sets threshold and ratio by \<open>setValueAtTime\<close> at \<open>now\<close>, adding
    no ramp: the value steps.
\<close>

theorem knob_setters_ramp_or_step:
  assumes ctx: "audioContext s = Some ctx"
    and g: "gainNode s = Some g" and dg: "dryGain s = Some dg" and wg: "wetGain s = Some wg"
    and bf: "bassFilter s = Some bf" and c: "compressor s = Some c"
    and dn: "delayNode s = Some dn" and fb: "delayFeedback s = Some fb"
    and dw: "delayWetGain s = Some dw"
    and cd: "chorusDepth s = Some cd" and lfo: "chorusLFO s = Some lfo"
    and cw: "chorusWetGain s = Some cw"
    and t: "currentTime ctx \<le> t"
  shows "(\<exists>s' g'. setVolume v s = Inr s' \<and> gainNode s' = Some g'
           \<and> param_value_at (gain g') t
               = linear_ramp (current_value (gain g)) (v / 100) (currentTime ctx) 0.05 t)
     \<and> (\<exists>s' dg' wg'. setReverbMix v s = Inr s' \<and> dryGain s' = Some dg' \<and> wetGain s' = Some wg'
           \<and> param_value_at (gain dg') t
               = linear_ramp (current_value (gain dg)) (1 - v / 100) (currentTime ctx) 0.1 t
           \<and> param_value_at (gain wg') t
               = linear_ramp (current_value (gain wg)) (v / 100) (currentTime ctx) 0.1 t)
     \<and> (\<exists>s' bf'. setBassBoost v s = Inr s' \<and> bassFilter s' = Some bf'
           \<and> param_value_at (bq_gain bf') t
               = linear_ramp (current_value (bq_gain bf)) ((v / 100) * 20) (currentTime ctx) 0.1 t)
     \<and> (\<exists>s' dn' fb' dw'. setDelayMix v s = Inr s' \<and> delayNode s' = Some dn'
           \<and> delayFeedback s' = Some fb' \<and> delayWetGain s' = Some dw'
           \<and> param_value_at (delayTime dn') t
               = linear_ramp (current_value (delayTime dn))
                   (0.08 + (0.6 - 0.08) * (max 0 (min 100 v) / 100)) (currentTime ctx) 0.12 t
           \<and> param_value_at (gain fb') t
               = linear_ramp (current_value (gain fb))
                   (0.1 + (max 0 (min 100 v) / 100) * 0.6) (currentTime ctx) 0.12 t
           \<and> param_value_at (gain dw') t
               = linear_ramp (current_value (gain dw))
                   ((max 0 (min 100 v) / 100) * 0.9) (currentTime ctx) 0.12 t)
     \<and> (\<exists>s' cd' lfo' cw'. setChorusMix v s = Inr s' \<and> chorusDepth s' = Some cd'
           \<and> chorusLFO s' = Some lfo' \<and> chorusWetGain s' = Some cw'
           \<and> param_value_at (gain cd') t
               = linear_ramp (current_value (gain cd))
                   (0.001 + (max 0 (min 100 v) / 100) * 0.004) (currentTime ctx) 0.12 t
           \<and> param_value_at (gain cw') t
               = linear_ramp (current_value (gain cw))
                   ((max 0 (min 100 v) / 100) * 0.8) (currentTime ctx) 0.12 t
           \<and> SetValueAtTime (0.3 + (max 0 (min 100 v) / 100) * 1.2) (currentTime ctx)
                 \<in> set (timeline (osc_frequency lfo'))
           \<and> filter is_ramp (timeline (osc_frequency lfo'))
                 = filter is_ramp (timeline (osc_frequency lfo)))
     \<and> (\<exists>s' c'. setCompressor v s = Inr s' \<and> compressor s' = Some c'
           \<and> SetValueAtTime (-50 + (v / 100) * 40) (currentTime ctx) \<in> set (timeline (threshold c'))
           \<and> filter is_ramp (timeline (threshold c')) = filter is_ramp (timeline (threshold c))
           \<and> SetValueAtTime (4 + (v / 100) * 16) (currentTime ctx) \<in> set (timeline (ratio c'))
           \<and> filter is_ramp (timeline (ratio c')) = filter is_ramp (timeline (ratio c)))"
  using setVolume_ramps [OF ctx g t, of v] setReverbMix_ramps [OF ctx dg wg t, of v]
    setBassBoost_ramps [OF ctx bf t, of v] setDelayMix_ramps [OF ctx dn fb dw t, of v]
    setChorusMix_ramps_and_steps [OF ctx cd lfo cw t, of v] setCompressor_steps [OF ctx c, of v]
  by (intro conjI)

theorem knob_setters_witness:
  "(\<exists>s' g'. setVolume 50 fresh_engine = Inr s' \<and> gainNode s' = Some g'
       \<and> param_value_at (gain g') 0 = 1
       \<and> param_value_at (gain g') 0.025 = 0.75
       \<and> param_value_at (gain g') 0.05 = 0.5)
   \<and> (\<exists>s' bf'. setBassBoost 50 fresh_engine = Inr s' \<and> bassFilter s' = Some bf'
       \<and> param_value_at (bq_gain bf') 0.05 = 5)"
proof -
  obtain dn fb dw cd lfo cw where n: "delayNode fresh_engine = Some dn"
      "delayFeedback fresh_engine = Some fb" "delayWetGain fresh_engine = Some dw"
      "chorusDepth fresh_engine = Some cd" "chorusLFO fresh_engine = Some lfo"
      "chorusWetGain fresh_engine = Some cw"
    using fresh_engine_nodes(6-11) by auto
  note k = knob_setters_ramp_or_step [OF fresh_engine_fields(1) fresh_engine_nodes(1-5) n]
  show ?thesis
    using k [of 0 50] k [of "0.025" 50] k [of "0.05" 50]
    by (auto simp: linear_ramp_def new_param_def)
qed

text \<open>
  The counterexample to C6 as stated: on the initialised engine \<open>setCompressor(100)\<close>
  leaves one \<open>setValueAtTime\<close> event on the threshold and on the ratio and no ramp; the
  threshold is \<open>-10\<close> at once, from \<open>-24\<close>.
\<close>

theorem setCompressor_jumps:
  "\<exists>s' c'. setCompressor 100 fresh_engine = Inr s' \<and> compressor s' = Some c'
      \<and> current_value (threshold c') = -24
      \<and> timeline (threshold c') = [SetValueAtTime (-10) 0]
      \<and> param_value_at (threshold c') 0 = -10
      \<and> timeline (ratio c') = [SetValueAtTime 20 0]"
  by (simp add: setCompressor_def fresh_engine_fields fresh_engine_nodes Let_def setValueAtTime_def
      new_param_def param_value_at_def)

text \<open>
  C7. \<open>setVolume(80)\<close> at time \<open>t1\<close>, then \<open>setVolume(20)\<close> at \<open>t2 = t1 + dt\<close> before
  the first ramp is over (\<open>dt < 0.05\<close>): the second call starts from the value \<open>c\<close> the
  first ramp has reached at \<open>t2\<close>; from \<open>t2\<close> on the gain is the straight line from
  \<open>c\<close> to 0.2, so it equals \<open>c\<close> at \<open>t2\<close> (no jump), its distance to 0.2 never grows,
  it changes by at most \<open>|0.2 - c| / 0.05\<close> per second (no discontinuity), it stays between
  \<open>c\<close> and 0.2, it only falls when \<open>c\<close> is at or above 0.2, and it is 0.2 from
  \<open>t2 + 0.05\<close> on: the ramp towards 0.8 is gone.
\<close>

theorem setVolume_retarget:
  assumes ctx: "audioContext s = Some ctx" and g: "gainNode s = Some g"
    and dt: "0 \<le> dt" "dt < 0.05"
  shows "\<exists>s1 g1 s2 g2.
      setVolume 80 s = Inr s1 \<and> gainNode (advance_clock dt s1) = Some g1
    \<and> current_value (gain g1)
        = linear_ramp (current_value (gain g)) 0.8 (currentTime ctx) 0.05 (currentTime ctx + dt)
    \<and> setVolume 20 (advance_clock dt s1) = Inr s2 \<and> gainNode s2 = Some g2
    \<and> param_value_at (gain g2) (currentTime ctx + dt) = current_value (gain g1)
    \<and> (\<forall>t. currentTime ctx + dt \<le> t \<longrightarrow>
          param_value_at (gain g2) t
            = linear_ramp (current_value (gain g1)) 0.2 (currentTime ctx + dt) 0.05 t)
    \<and> (\<forall>t t'. currentTime ctx + dt \<le> t \<and> t \<le> t' \<longrightarrow>
          \<bar>param_value_at (gain g2) t' - 0.2\<bar> \<le> \<bar>param_value_at (gain g2) t - 0.2\<bar>)
    \<and> (\<forall>t t'. currentTime ctx + dt \<le> t \<and> t \<le> t' \<longrightarrow>
          \<bar>param_value_at (gain g2) t' - param_value_at (gain g2) t\<bar>
            \<le> \<bar>0.2 - current_value (gain g1)\<bar> / 0.05 * (t' - t))
    \<and> (\<forall>t. currentTime ctx + dt \<le> t \<longrightarrow>
          min (current_value (gain g1)) 0.2 \<le> param_value_at (gain g2) t
          \<and> param_value_at (gain g2) t \<le> max (current_value (gain g1)) 0.2)
    \<and> (0.2 \<le> current_value (gain g1) \<longrightarrow>
          (\<forall>t t'. currentTime ctx + dt \<le> t \<and> t \<le> t' \<longrightarrow>
             param_value_at (gain g2) t' \<le> param_value_at (gain g2) t))
    \<and> (\<forall>t. currentTime ctx + dt + 0.05 \<le> t \<longrightarrow> param_value_at (gain g2) t = 0.2)"
proof -
  let ?t1 = "currentTime ctx" and ?t2 = "currentTime ctx + dt"
  define p1 where "p1 = ramp_to (80 / 100) ?t1 0.05 (gain g)"
  define s1 where "s1 = s\<lparr>gainNode := Some (g\<lparr>gain := p1\<rparr>)\<rparr>"
  define g1 where "g1 = (g\<lparr>gain := p1\<rparr>)\<lparr>gain := render_param ?t2 p1\<rparr>"
  define c where "c = current_value (gain g1)"
  define p2 where "p2 = ramp_to (20 / 100) ?t2 0.05 (gain g1)"
  define g2 where "g2 = g1\<lparr>gain := p2\<rparr>"
  define s2 where "s2 = (advance_clock dt s1)\<lparr>gainNode := Some g2\<rparr>"
  have 1: "setVolume 80 s = Inr s1"
    using ctx g by (simp add: setVolume_def s1_def p1_def Let_def)
  have ctx1: "audioContext s1 = Some ctx" and gn1: "gainNode s1 = Some (g\<lparr>gain := p1\<rparr>)"
    using ctx by (simp_all add: s1_def)
  have 2: "gainNode (advance_clock dt s1) = Some g1"
    using advance_clock_gain(2) [OF ctx1 gn1, of dt] by (simp add: g1_def)
  have ctx2: "audioContext (advance_clock dt s1) = Some (ctx\<lparr>currentTime := ?t2\<rparr>)"
    using advance_clock_gain(1) [OF ctx1 gn1, of dt] by simp
  have 3: "c = linear_ramp (current_value (gain g)) 0.8 ?t1 0.05 ?t2"
    using dt ramp_to_value [of "0.05" ?t1 ?t2 "80 / 100" "gain g"]
    by (simp add: c_def g1_def render_param_def p1_def)
  have 4: "setVolume 20 (advance_clock dt s1) = Inr s2"
    using ctx2 2 by (simp add: setVolume_def s2_def g2_def p2_def Let_def)
  have 5: "gainNode s2 = Some g2"
    by (simp add: s2_def)
  have v: "param_value_at (gain g2) t = linear_ramp c 0.2 ?t2 0.05 t" if "?t2 \<le> t" for t
    using that ramp_to_value [of "0.05" ?t2 t "20 / 100" "gain g1"]
    by (simp add: g2_def p2_def c_def)
  have 6: "param_value_at (gain g2) ?t2 = c"
    using v [of ?t2] by (simp add: linear_ramp_start)
  have 7: "\<bar>param_value_at (gain g2) t' - 0.2\<bar> \<le> \<bar>param_value_at (gain g2) t - 0.2\<bar>"
    if "?t2 \<le> t" "t \<le> t'" for t t'
    using that v [of t] v [of t'] linear_ramp_approaches [of "0.05" ?t2 t t' c "0.2"] by simp
  have 8: "\<bar>param_value_at (gain g2) t' - param_value_at (gain g2) t\<bar> \<le> \<bar>0.2 - c\<bar> / 0.05 * (t' - t)"
    if "?t2 \<le> t" "t \<le> t'" for t t'
    using that v [of t] v [of t'] linear_ramp_lipschitz [of "0.05" ?t2 t t' c "0.2"] by simp
  have 9: "min c 0.2 \<le> param_value_at (gain g2) t \<and> param_value_at (gain g2) t \<le> max c 0.2"
    if "?t2 \<le> t" for t
    using that v [of t] linear_ramp_between [of "0.05" ?t2 t c "0.2"] by simp
  have 10: "param_value_at (gain g2) t' \<le> param_value_at (gain g2) t"
    if "0.2 \<le> c" "?t2 \<le> t" "t \<le> t'" for t t'
    using that v [of t] v [of t'] linear_ramp_falls [of "0.05" ?t2 t t' "0.2" c] by simp
  have 11: "param_value_at (gain g2) t = 0.2" if "?t2 + 0.05 \<le> t" for t
    using that v [of t] linear_ramp_end [of ?t2 "0.05" t c "0.2"] by simp
  show ?thesis
    using 1 2 3 4 5 6 v 7 8 9 10 11 unfolding c_def by blast
qed

theorem setVolume_retarget_witness:
  "\<exists>s1 g1 s2 g2. setVolume 80 fresh_engine = Inr s1
      \<and> gainNode (advance_clock 0.02 s1) = Some g1 \<and> current_value (gain g1) = 0.92
      \<and> setVolume 20 (advance_clock 0.02 s1) = Inr s2 \<and> gainNode s2 = Some g2
      \<and> param_value_at (gain g2) 0.02 = 0.92
      \<and> param_value_at (gain g2) 0.045 = 0.56
      \<and> param_value_at (gain g2) 0.07 = 0.2"
proof -
  from setVolume_retarget [OF fresh_engine_fields(1) fresh_engine_nodes(1), of "0.02"]
  obtain s1 g1 s2 g2 where r: "setVolume 80 fresh_engine = Inr s1"
      "gainNode (advance_clock 0.02 s1) = Some g1"
      "current_value (gain g1) = linear_ramp 1 0.8 0 0.05 0.02"
      "setVolume 20 (advance_clock 0.02 s1) = Inr s2" "gainNode s2 = Some g2"
      "param_value_at (gain g2) 0.02 = current_value (gain g1)"
      "\<And>t. 0.02 \<le> t \<Longrightarrow>
          param_value_at (gain g2) t = linear_ramp (current_value (gain g1)) 0.2 0.02 0.05 t"
    by (auto simp: new_param_def)
  have c: "current_value (gain g1) = 0.92"
    using r(3) by (simp add: linear_ramp_def)
  have "param_value_at (gain g2) 0.045 = 0.56" "param_value_at (gain g2) 0.07 = 0.2"
    using r(7) [of "0.045"] r(7) [of "0.07"] c by (simp_all add: linear_ramp_def)
  with r c show ?thesis by auto
qed

subsection \<open>Decode failure\<close>

lemma loadAudioFile_rethrows:
  assumes "decode bytes = Inl err" and "audioContext s = Some ctx"
  shows "\<exists>s'. loadAudioFile decode bytes s = (Thrown err, s')
              \<and> audioBuffer s' = audioBuffer s \<and> pauseTime s' = pauseTime s
              \<and> startTime s' = startTime s \<and> isPlaying s' = isPlaying s
              \<and> sourceNode s' = sourceNode s"
  using assms by (simp add: loadAudioFile_def Let_def)

lemma playTrackAt_decode_failure:
  assumes "decode bytes = Inl err"
    and h: "0 \<le> i" "i < int (length (tracks a))" "readFile (path (tracks a ! nat i)) = Some bytes"
  shows "notifications (playTrackAt decode readFile i a)
             = notifications a @ [(''Failed to play track'', ''error'')]
           \<and> audioBuffer (audioEngine (playTrackAt decode readFile i a)) = audioBuffer (audioEngine a)
           \<and> isPlaying (audioEngine (playTrackAt decode readFile i a)) = False
           \<and> pauseTime (audioEngine (playTrackAt decode readFile i a)) = 0"
proof -
  obtain e1 where e1: "stop (audioEngine a) = Inr e1" "audioBuffer e1 = audioBuffer (audioEngine a)"
      "isPlaying e1 = False" "pauseTime e1 = 0"
    by (auto simp: stop_def Let_def stop_and_disconnect_def split: option.splits sum.splits)
  have "\<exists>er e2. loadAudioFile decode bytes e1 = (Thrown er, e2)
      \<and> audioBuffer e2 = audioBuffer e1 \<and> isPlaying e2 = isPlaying e1
      \<and> pauseTime e2 = pauseTime e1"
  proof (cases "audioContext e1")
    case None
    then show ?thesis by (simp add: loadAudioFile_def)
  next
    case (Some c)
    then show ?thesis using assms(1) by (simp add: loadAudioFile_def Let_def)
  qed
  then obtain er e2 where e2: "loadAudioFile decode bytes e1 = (Thrown er, e2)"
      "audioBuffer e2 = audioBuffer e1" "isPlaying e2 = isPlaying e1" "pauseTime e2 = pauseTime e1"
    by blast
  have p: "playTrackAt decode readFile i a = failed_to_play e2 (a\<lparr>currentIndex := i\<rparr>)"
    using h e1(1) e2(1) by (simp add: playTrackAt_def Let_def)
  show ?thesis
    using e1 e2 by (simp add: p failed_to_play_def)
qed

text \<open>
  C3 (corrected). The claim: on a decode failure \<open>loadAudioFile\<close> returns a failure signal
  instead of throwing, and leaves buffer, position and playing flag unchanged. The
  \<open>catch\<close> block of \<open>loadAudioFile\<close> rethrows, so the call ends in the decode error
  itself; it does leave the loaded buffer, \<open>pauseTime\<close>, \<open>startTime\<close>, the playing flag
  and the source node as they were. The caller \<open>playTrackAt\<close> catches the error and shows
  "Failed to play track"; it has called \<open>stop()\<close> before loading, so after it the engine is
  stopped at position 0, still holding the buffer loaded before.
\<close>

theorem loadAudioFile_decode_failure:
  assumes "decode bytes = Inl err"
  shows "(audioContext s = Some ctx \<longrightarrow>
           (\<exists>s'. loadAudioFile decode bytes s = (Thrown err, s')
              \<and> audioBuffer s' = audioBuffer s \<and> pauseTime s' = pauseTime s
              \<and> startTime s' = startTime s \<and> isPlaying s' = isPlaying s
              \<and> sourceNode s' = sourceNode s))
       \<and> (0 \<le> i \<and> i < int (length (tracks a)) \<and> readFile (path (tracks a ! nat i)) = Some bytes \<longrightarrow>
           notifications (playTrackAt decode readFile i a)
             = notifications a @ [(''Failed to play track'', ''error'')]
           \<and> audioBuffer (audioEngine (playTrackAt decode readFile i a)) = audioBuffer (audioEngine a)
           \<and> isPlaying (audioEngine (playTrackAt decode readFile i a)) = False
           \<and> pauseTime (audioEngine (playTrackAt decode readFile i a)) = 0)"
  using assms loadAudioFile_rethrows [of decode bytes err s ctx]
    playTrackAt_decode_failure [of decode bytes err i a readFile]
  by blast

theorem loadAudioFile_decode_failure_witness:
  "(\<exists>s'. loadAudioFile failing_decoder () loaded_engine = (Thrown EncodingError, s')
        \<and> audioBuffer s' = Some ten_second_track \<and> pauseTime s' = 0 \<and> isPlaying s' = False)
   \<and> notifications (playTrackAt failing_decoder (\<lambda>p. Some ()) 0 demo_app)
        = [(''Failed to play track'', ''error'')]
   \<and> audioBuffer (audioEngine (playTrackAt failing_decoder (\<lambda>p. Some ()) 0 demo_app))
        = Some ten_second_track"
proof -
  have d: "failing_decoder () = Inl EncodingError"
    by (simp add: failing_decoder_def)
  have i: "(0::int) \<le> 0 \<and> 0 < int (length (tracks demo_app))
      \<and> (\<lambda>p. Some ()) (path (tracks demo_app ! nat 0)) = Some ()"
    by (simp add: demo_app_def)
  have e: "audioEngine demo_app = loaded_engine" "notifications demo_app = []"
    by (simp_all add: demo_app_def)
  from loadAudioFile_decode_failure [of failing_decoder "()" EncodingError loaded_engine
      "\<lparr>ctx_state = Running, currentTime = 0\<rparr>" 0 demo_app "\<lambda>p. Some ()"]
    d loaded_engine_fields(1) i
  show ?thesis
    by (auto simp: loaded_engine_fields e)
qed

text \<open>
  The counterexample to C3 as stated: with a decoder that rejects its input,
  \<open>loadAudioFile\<close> on the initialised engine throws; no value is returned.
\<close>

theorem loadAudioFile_throws:
  "fst (loadAudioFile failing_decoder () fresh_engine) = Thrown EncodingError
   \<and> (\<nexists>info. fst (loadAudioFile failing_decoder () fresh_engine) = Returned info)"
  by (simp add: loadAudioFile_def failing_decoder_def fresh_engine_fields Let_def)

subsection \<open>Presets\<close>

lemma setReverbMix_returns:
  "audioContext s = Some ctx \<Longrightarrow> \<exists>s'. setReverbMix v s = Inr s' \<and> audioContext s' = Some ctx"
  by (auto simp: setReverbMix_def Let_def split: option.splits)

lemma setDelayMix_returns:
  "audioContext s = Some ctx \<Longrightarrow> \<exists>s'. setDelayMix v s = Inr s' \<and> audioContext s' = Some ctx"
  by (auto simp: setDelayMix_def Let_def split: option.splits)

lemma setChorusMix_returns:
  "audioContext s = Some ctx \<Longrightarrow> \<exists>s'. setChorusMix v s = Inr s' \<and> audioContext s' = Some ctx"
  by (auto simp: setChorusMix_def Let_def split: option.splits)

lemma applyPlaybackRate_returns:
  "audioContext s = Some ctx \<Longrightarrow> \<exists>s'. applyPlaybackRate s = Inr s' \<and> audioContext s' = Some ctx"
  by (auto simp: applyPlaybackRate_def updateActualPlaybackRate_def Let_def split: option.splits)

lemma applyPreset_returns:
  assumes "audioContext s = Some ctx"
  shows "\<exists>s'. applyPreset preset s
           = Inr (copy_config (case map_of presets preset of Some c \<Rightarrow> c | None \<Rightarrow> default_preset), s')"
proof -
  let ?config = "case map_of presets preset of Some c \<Rightarrow> c | None \<Rightarrow> default_preset"
  obtain s1 where 1: "setReverbMix (reverb ?config) s = Inr s1" "audioContext s1 = Some ctx"
    using setReverbMix_returns [OF assms] by blast
  let ?s1 = "s1\<lparr>pitchShift := pitch ?config, playbackRate := speed ?config\<rparr>"
  have "audioContext ?s1 = Some ctx" using 1 by simp
  then obtain s2 where 2: "setDelayMix (delay ?config) ?s1 = Inr s2" "audioContext s2 = Some ctx"
    using setDelayMix_returns by blast
  obtain s3 where 3: "setChorusMix (chorus ?config) s2 = Inr s3" "audioContext s3 = Some ctx"
    using setChorusMix_returns [OF 2(2)] by blast
  obtain s4 where 4: "applyPlaybackRate s3 = Inr s4"
    using applyPlaybackRate_returns [OF 3(2)] by blast
  show ?thesis
    using 1 2 3 4 by (simp add: applyPreset_def Let_def)
qed

lemma basic_apply_reverb_returns:
  "audioContext s = Some ctx \<Longrightarrow> \<exists>s'. basic_apply_reverb s = Inr s' \<and> audioContext s' = Some ctx"
  by (auto simp: basic_apply_reverb_def Let_def split: option.splits)

lemma basic_applyPreset_returns:
  assumes "audioContext s = Some ctx"
  shows "\<exists>s'. basic_applyPreset preset s
           = Inr (basic_config_object (case map_of basic_presets preset of Some c \<Rightarrow> c
                    | None \<Rightarrow> \<lparr>b_reverb = 0, b_pitch = 0, b_speed = 1.0\<rparr>), s')"
proof -
  let ?config = "case map_of basic_presets preset of Some c \<Rightarrow> c
                    | None \<Rightarrow> \<lparr>b_reverb = 0, b_pitch = 0, b_speed = 1.0\<rparr>"
  let ?s1 = "s\<lparr>reverbMix := b_reverb ?config / 100, pitchShift := b_pitch ?config,
                 playbackRate := b_speed ?config\<rparr>"
  have "audioContext ?s1 = Some ctx" using assms by simp
  then obtain s2 where 2: "basic_apply_reverb ?s1 = Inr s2" "audioContext s2 = Some ctx"
    using basic_apply_reverb_returns by blast
  obtain s3 where 3: "applyPlaybackRate s2 = Inr s3"
    using applyPlaybackRate_returns [OF 2(2)] by blast
  show ?thesis
    using 2(1) 3 by (simp add: basic_applyPreset_def Let_def)
qed

text \<open>
  C5 (corrected). The claim: \<open>applyPreset(name)\<close> returns \<open>{reverb, pitch, speed, delay,
  chorus}\<close> with the values of the table, \<open>{10, 4, 1.25, 8, 30}\<close> for "nightcore". That
  is what \<open>applyPreset\<close> of the first engine returns, for all six names. The
  \<open>applyPreset\<close> of the basic engine, which the claim cites as well, returns the same
  reverb, pitch and speed and has no delay and no chorus property.
\<close>

theorem applyPreset_table:
  assumes "audioContext s = Some ctx"
  shows "(\<exists>s'. applyPreset ''nightcore'' s
            = Inr ([(''reverb'', 10), (''pitch'', 4), (''speed'', 1.25), (''delay'', 8), (''chorus'', 30)], s'))
       \<and> (\<exists>s'. applyPreset ''concert'' s
            = Inr ([(''reverb'', 40), (''pitch'', 0), (''speed'', 1.0), (''delay'', 25), (''chorus'', 12)], s'))
       \<and> (\<exists>s'. applyPreset ''studio'' s
            = Inr ([(''reverb'', 15), (''pitch'', 0), (''speed'', 1.0), (''delay'', 10), (''chorus'', 8)], s'))
       \<and> (\<exists>s'. applyPreset ''radio'' s
            = Inr ([(''reverb'', 5), (''pitch'', 1), (''speed'', 1.0), (''delay'', 0), (''chorus'', 0)], s'))
       \<and> (\<exists>s'. applyPreset ''slowed'' s
            = Inr ([(''reverb'', 60), (''pitch'', -2), (''speed'', 0.75), (''delay'', 45), (''chorus'', 16)], s'))
       \<and> (\<exists>s'. applyPreset ''default'' s
            = Inr ([(''reverb'', 0), (''pitch'', 0), (''speed'', 1.0), (''delay'', 0), (''chorus'', 0)], s'))
       \<and> (\<exists>s'. basic_applyPreset ''nightcore'' s
            = Inr ([(''reverb'', 10), (''pitch'', 4), (''speed'', 1.25)], s'))
       \<and> (\<exists>s'. basic_applyPreset ''concert'' s
            = Inr ([(''reverb'', 40), (''pitch'', 0), (''speed'', 1.0)], s'))
       \<and> (\<exists>s'. basic_applyPreset ''studio'' s
            = Inr ([(''reverb'', 15), (''pitch'', 0), (''speed'', 1.0)], s'))
       \<and> (\<exists>s'. basic_applyPreset ''radio'' s
            = Inr ([(''reverb'', 5), (''pitch'', 1), (''speed'', 1.0)], s'))
       \<and> (\<exists>s'. basic_applyPreset ''slowed'' s
            = Inr ([(''reverb'', 60), (''pitch'', -2), (''speed'', 0.75)], s'))
       \<and> (\<exists>s'. basic_applyPreset ''default'' s
            = Inr ([(''reverb'', 0), (''pitch'', 0), (''speed'', 1.0)], s'))"
  using applyPreset_returns [OF assms, of "''nightcore''"] applyPreset_returns [OF assms, of "''concert''"]
    applyPreset_returns [OF assms, of "''studio''"] applyPreset_returns [OF assms, of "''radio''"]
    applyPreset_returns [OF assms, of "''slowed''"] applyPreset_returns [OF assms, of "''default''"]
    basic_applyPreset_returns [OF assms, of "''nightcore''"] basic_applyPreset_returns [OF assms, of "''concert''"]
    basic_applyPreset_returns [OF assms, of "''studio''"] basic_applyPreset_returns [OF assms, of "''radio''"]
    basic_applyPreset_returns [OF assms, of "''slowed''"] basic_applyPreset_returns [OF assms, of "''default''"]
  by (simp add: presets_def basic_presets_def copy_config_def basic_config_object_def default_preset_def)

theorem applyPreset_table_witness:
  "(\<exists>s'. applyPreset ''nightcore'' fresh_engine
            = Inr ([(''reverb'', 10), (''pitch'', 4), (''speed'', 1.25), (''delay'', 8), (''chorus'', 30)], s'))
   \<and> (\<exists>s'. basic_applyPreset ''slowed'' fresh_engine
            = Inr ([(''reverb'', 60), (''pitch'', -2), (''speed'', 0.75)], s'))"
  using applyPreset_table [OF fresh_engine_fields(1)] by blast

text \<open>
  The counterexample to C5 as stated: the object the basic \<open>applyPreset("nightcore")\<close>
  returns has no \<open>delay\<close> and no \<open>chorus\<close>.
\<close>

theorem basic_applyPreset_has_no_delay:
  "\<exists>config s'. basic_applyPreset ''nightcore'' fresh_engine = Inr (config, s')
      \<and> map_of config ''delay'' = None \<and> map_of config ''chorus'' = None
      \<and> config \<noteq> [(''reverb'', 10), (''pitch'', 4), (''speed'', 1.25), (''delay'', 8), (''chorus'', 30)]"
proof -
  obtain s' where "basic_applyPreset ''nightcore'' fresh_engine
            = Inr ([(''reverb'', 10), (''pitch'', 4), (''speed'', 1.25)], s')"
    using basic_applyPreset_returns [OF fresh_engine_fields(1), of "''nightcore''"]
    by (auto simp: basic_presets_def basic_config_object_def)
  then show ?thesis by simp
qed

subsection \<open>Offline export\<close>

text \<open>
  C10. With no decoded buffer, \<open>exportProcessedAudio\<close> returns \<open>null\<close>, hands nothing to
  \<open>startRendering\<close>, never calls the progress callback and leaves the engine as it is.
\<close>

theorem export_without_track:
  "audioBuffer s = None \<Longrightarrow>
     exportProcessedAudio render callback s
       = (\<lparr>result = Returned None, rendering = None, progress = []\<rparr>, s)"
  by (simp add: exportProcessedAudio_def)

theorem export_without_track_witness:
  "audioBuffer fresh_engine = None
   \<and> exportProcessedAudio (\<lambda>og. Inr ten_second_track) True fresh_engine
       = (\<lparr>result = Returned None, rendering = None, progress = []\<rparr>, fresh_engine)"
  using export_without_track [of fresh_engine "\<lambda>og. Inr ten_second_track" True]
  by (simp add: fresh_engine_fields)

lemma loaded_engine_graph:
  "graph loaded_engine =
      [(DelayInput, DelayNode), (DelayNode, DelayFeedback),
       (DelayFeedback, DelayNode), (DelayNode, DelayWetGain),
       (ChorusInput, ChorusDelay), (ChorusDelay, ChorusWetGain),
       (ChorusLFO, ChorusDepth), (ChorusDepth, ChorusDelayTime),
       (GainNode, BassFilter), (BassFilter, Compressor),
       (Compressor, DryGain), (Compressor, ConvolverNode),
       (ConvolverNode, WetGain), (Compressor, DelayInput),
       (DelayWetGain, AnalyserNode), (Compressor, ChorusInput),
       (ChorusWetGain, AnalyserNode), (DryGain, AnalyserNode),
       (WetGain, AnalyserNode), (AnalyserNode, Destination)]"
  "chainConfigured loaded_engine = True"
  "bassFilter loaded_engine
     = Some \<lparr>bq_frequency = new_param 250, bq_Q = new_param 0.7, bq_gain = new_param 0\<rparr>"
  by (simp_all add: loaded_engine_def loadAudioFile_def fresh_engine_def initializeAudioContext_def
      new_engine_def create_nodes_def setupAudioChain_def setDelayMix_def setChorusMix_def
      connect_all_def connect_def Let_def)

lemma offline_graph_connections:
  "og_connections (offline_graph_of s buf g) =
     [(DelayInput, DelayNode), (DelayNode, DelayFeedback),
      (DelayFeedback, DelayNode), (DelayNode, DelayWetGain),
      (ChorusLFO, ChorusDepth), (ChorusDepth, ChorusDelayTime),
      (ChorusInput, ChorusDelay), (ChorusDelay, ChorusWetGain),
      (SourceNode, GainNode), (GainNode, DryGain), (GainNode, ConvolverNode),
      (GainNode, DelayInput), (GainNode, ChorusInput),
      (ConvolverNode, WetGain), (DryGain, Destination),
      (WetGain, Destination), (DelayWetGain, Destination),
      (ChorusWetGain, Destination)]"
  by (simp add: offline_graph_of_def connect_all_def connect_def)

lemma export_rendering:
  assumes "rendering (fst (exportProcessedAudio render callback s)) = Some og"
  shows "\<exists>buf g. audioBuffer s = Some buf \<and> gainNode s = Some g
           \<and> og = offline_graph_of (updateActualPlaybackRate s) buf g"
proof (cases "audioBuffer s")
  case None
  then show ?thesis using assms by (simp add: exportProcessedAudio_def)
next
  case (Some buf)
  show ?thesis
  proof (cases "gainNode s")
    case None
    then have "gainNode (updateActualPlaybackRate s) = None"
      by (simp add: updateActualPlaybackRate_def)
    then show ?thesis
      using assms Some by (simp add: exportProcessedAudio_def Let_def)
  next
    case g: (Some g)
    have gg: "gainNode (updateActualPlaybackRate s) = Some g"
      using g by (simp add: updateActualPlaybackRate_def)
    show ?thesis
      using assms Some g gg
      by (cases "render (offline_graph_of (updateActualPlaybackRate s) buf g)")
         (simp_all add: exportProcessedAudio_def Let_def)
  qed
qed

lemma export_graph_stages:
  assumes "rendering (fst (exportProcessedAudio render callback s)) = Some og"
  shows "BassFilter \<notin> set (graph_nodes (og_connections og))"
    and "Compressor \<notin> set (graph_nodes (og_connections og))"
    and "successors (og_connections og) GainNode = [DryGain, ConvolverNode, DelayInput, ChorusInput]"
  using export_rendering [OF assms]
  by (auto simp: offline_graph_connections graph_nodes_def successors_def)

lemma offline_graph_values:
  "map_of (og_values (offline_graph_of s buf g)) BassFilter = None"
  "map_of (og_values (offline_graph_of s buf g)) Compressor = None"
  by (simp_all add: offline_graph_of_def Let_def)

text \<open>
  C2 (the code departs from the claim). The claim: the export graph has the stages of the
  live chain, in the same order, with the current values: gain, bass filter, compressor,
  dry/wet reverb split, delay and chorus sends. The export graph has no bass filter and no
  compressor, for any engine state (\<open>export_graph_stages\<close>): its gain node feeds the dry
  gain, the convolver and the two sends directly. The scenario: bass boost set to 100
  (20 dB) on the loaded engine, then \<open>play()\<close> and an export.
\<close>

theorem export_skips_bass_and_compressor:
  "\<exists>e1 e2 og. setBassBoost 100 loaded_engine = Inr e1 \<and> play e1 = Inr e2 \<and> bassBoost e2 = 20
     \<and> successors (graph e2) SourceNode = [GainNode]
     \<and> successors (graph e2) GainNode = [BassFilter]
     \<and> successors (graph e2) BassFilter = [Compressor]
     \<and> successors (graph e2) Compressor = [DryGain, ConvolverNode, DelayInput, ChorusInput]
     \<and> rendering (fst (exportProcessedAudio (\<lambda>g. Inr ten_second_track) True e2)) = Some og
     \<and> successors (og_connections og) SourceNode = [GainNode]
     \<and> successors (og_connections og) GainNode = [DryGain, ConvolverNode, DelayInput, ChorusInput]
     \<and> BassFilter \<notin> set (graph_nodes (og_connections og))
     \<and> Compressor \<notin> set (graph_nodes (og_connections og))
     \<and> map_of (og_values og) BassFilter = None
     \<and> map_of (og_values og) Compressor = None"
  by (simp add: setBassBoost_def play_def loaded_engine_fields loaded_engine_graph
      updateActualPlaybackRate_def setupAudioChain_def createBufferSource_def
      exportProcessedAudio_def offline_graph_connections offline_graph_values
      connect_def graph_nodes_def successors_def Let_def)

subsection \<open>The WAV container\<close>

lemma u16_bytes: "d mod 256 + 256 * (d div 256 mod 256) = d mod 65536" for d :: nat
  using mod_mult2_eq [of d 256 256] by simp

lemma u32_bytes:
  "d mod 256 + 256 * (d div 256 mod 256) + 65536 * (d div 65536 mod 256)
     + 16777216 * (d div 16777216 mod 256) = d mod 4294967296" for d :: nat
proof -
  have a: "d mod 65536 = d mod 256 + 256 * (d div 256 mod 256)"
    using u16_bytes [of d] by simp
  have b: "(d div 65536) mod 65536 = (d div 65536) mod 256 + 256 * (d div 65536 div 256 mod 256)"
    using u16_bytes [of "d div 65536"] by simp
  have c: "d div 65536 div 256 = d div 16777216"
    by (simp add: div_mult2_eq [symmetric])
  have "d mod 4294967296 = 65536 * (d div 65536 mod 65536) + d mod 65536"
    using mod_mult2_eq [of d 65536 65536] by simp
  then show ?thesis using a b c by simp
qed

lemma sample_word_less: "sample_word ch k < 65536"
  by (simp add: sample_word_def nat_less_iff)

lemma write_frame_step:
  "(if offset < length ch then view_setInt16 pos (pcm_sample (ch ! offset)) v
    else view_setUint16 pos 0 v) = view_setUint16 pos (sample_word ch offset) v"
  by (simp add: view_setInt16_def sample_word_def)

lemma write_frame_ok:
  "pos + 2 * length chs \<le> length v \<Longrightarrow>
   \<exists>v'. write_frame chs offset (v, pos) = Inr (v', pos + 2 * length chs)
        \<and> length v' = length v
        \<and> (\<forall>j<pos. v' ! j = v ! j)
        \<and> (\<forall>i<length chs. u16_at v' (pos + 2 * i) = sample_word (chs ! i) offset)"
proof (induction chs arbitrary: v pos)
  case Nil
  then show ?case by simp
next
  case (Cons ch chs)
  let ?w = "sample_word ch offset"
  let ?v1 = "v[pos := ?w mod 256, pos + 1 := (?w div 256) mod 256]"
  have b: "pos + 2 \<le> length v" using Cons.prems by simp
  have s: "view_setUint16 pos ?w v = Inr ?v1"
    using b by (simp add: view_setUint16_def)
  have "(pos + 2) + 2 * length chs \<le> length ?v1" using Cons.prems by simp
  from Cons.IH [OF this]
  obtain v' where v': "write_frame chs offset (?v1, pos + 2) = Inr (v', pos + 2 + 2 * length chs)"
      "length v' = length ?v1" "\<forall>j<pos + 2. v' ! j = ?v1 ! j"
      "\<forall>i<length chs. u16_at v' (pos + 2 + 2 * i) = sample_word (chs ! i) offset"
    by blast
  have w: "write_frame (ch # chs) offset (v, pos) = Inr (v', pos + 2 * length (ch # chs))"
    using s v'(1) by (simp add: write_frame_step)
  have old: "\<forall>j<pos. v' ! j = v ! j"
    using v'(3) by simp
  have "v' ! pos = ?w mod 256" "v' ! (pos + 1) = (?w div 256) mod 256"
    using v'(3) b by simp_all
  then have first: "u16_at v' pos = ?w"
    using u16_bytes [of ?w] sample_word_less [of ch offset] by (simp add: u16_at_def)
  have "u16_at v' (pos + 2 * i) = sample_word ((ch # chs) ! i) offset" if "i < length (ch # chs)" for i
  proof (cases i)
    case 0
    then show ?thesis using first by simp
  next
    case (Suc i')
    then show ?thesis using v'(4) that by simp
  qed
  then show ?case using w v'(2) old by auto
qed

lemma write_frames_ok:
  assumes "offset + n = N" and "pos = 44 + offset * length chs * 2"
    and "len = 44 + N * length chs * 2" and "length v = len"
  shows "\<exists>v'. write_frames chs len offset (v, pos) = Some (Inr v')
           \<and> length v' = len
           \<and> (\<forall>j<pos. v' ! j = v ! j)
           \<and> (\<forall>k i. offset \<le> k \<and> k < N \<and> i < length chs \<longrightarrow>
                 u16_at v' (44 + (k * length chs + i) * 2) = sample_word (chs ! i) k)"
  using assms
proof (induction n arbitrary: offset pos v)
  case 0
  then have "\<not> pos < len" by simp
  then have "write_frames chs len offset (v, pos) = Some (Inr v)"
    by (subst write_frames.simps) simp
  then show ?case using 0 by auto
next
  case (Suc n)
  show ?case
  proof (cases "chs = []")
    case True
    then have "\<not> pos < len" using Suc.prems by simp
    then have "write_frames chs len offset (v, pos) = Some (Inr v)"
      by (subst write_frames.simps) simp
    then show ?thesis using Suc.prems True by auto
  next
    case False
    let ?C = "length chs"
    have C: "0 < ?C" using False by simp
    have lt: "offset < N" using Suc.prems by simp
    have "(offset + 1) * ?C \<le> N * ?C" using lt by (intro mult_right_mono) auto
    then have fit: "pos + 2 * ?C \<le> length v" using Suc.prems by (simp add: algebra_simps)
    then have run: "pos < len" using C Suc.prems by simp
    from write_frame_ok [OF fit, of offset]
    obtain v1 where v1: "write_frame chs offset (v, pos) = Inr (v1, pos + 2 * ?C)"
        "length v1 = length v" "\<forall>j<pos. v1 ! j = v ! j"
        "\<forall>i<?C. u16_at v1 (pos + 2 * i) = sample_word (chs ! i) offset"
      by blast
    have "\<exists>v'. write_frames chs len (Suc offset) (v1, pos + 2 * ?C) = Some (Inr v')
           \<and> length v' = len
           \<and> (\<forall>j<pos + 2 * ?C. v' ! j = v1 ! j)
           \<and> (\<forall>k i. Suc offset \<le> k \<and> k < N \<and> i < ?C \<longrightarrow>
                 u16_at v' (44 + (k * ?C + i) * 2) = sample_word (chs ! i) k)"
      using Suc.prems v1(2) by (intro Suc.IH) (simp_all add: algebra_simps)
    then obtain v' where v': "write_frames chs len (Suc offset) (v1, pos + 2 * ?C) = Some (Inr v')"
        "length v' = len" "\<forall>j<pos + 2 * ?C. v' ! j = v1 ! j"
        "\<forall>k i. Suc offset \<le> k \<and> k < N \<and> i < ?C \<longrightarrow>
                 u16_at v' (44 + (k * ?C + i) * 2) = sample_word (chs ! i) k"
      by blast
    have w: "write_frames chs len offset (v, pos) = Some (Inr v')"
      using run v1(1) v'(1) by (subst write_frames.simps) simp
    have old: "\<forall>j<pos. v' ! j = v ! j"
      using v'(3) v1(3) by simp
    have cur: "u16_at v' (44 + (offset * ?C + i) * 2) = sample_word (chs ! i) offset" if "i < ?C" for i
    proof -
      have e: "44 + (offset * ?C + i) * 2 = pos + 2 * i"
        using Suc.prems by (simp add: algebra_simps)
      have "pos + 2 * i < pos + 2 * ?C" "pos + 2 * i + 1 < pos + 2 * ?C" using that by simp_all
      then have "u16_at v' (pos + 2 * i) = u16_at v1 (pos + 2 * i)"
        using v'(3) by (simp add: u16_at_def)
      then have "u16_at v' (pos + 2 * i) = sample_word (chs ! i) offset"
        using v1(4) that by simp
      then show ?thesis by (simp only: e)
    qed
    have "u16_at v' (44 + (k * ?C + i) * 2) = sample_word (chs ! i) k"
      if "offset \<le> k \<and> k < N \<and> i < ?C" for k i
    proof (cases "k = offset")
      case True
      then show ?thesis using cur that by simp
    next
      case False
      then have "Suc offset \<le> k" using that by simp
      then show ?thesis using v'(4) that by simp
    qed
    then show ?thesis using w v'(2) old by auto
  qed
qed

lemma put_field_append:
  "length (field_bytes f) \<le> n \<Longrightarrow>
   put_field f (xs @ replicate n 0, length xs)
     = Inr (xs @ field_bytes f @ replicate (n - length (field_bytes f)) 0,
            length xs + length (field_bytes f))"
proof (cases f)
  case (U16 d)
  assume "length (field_bytes f) \<le> n"
  then obtain m where "n = Suc (Suc m)"
    using U16 by (cases n; cases "n - 1") (auto simp: le16_def)
  then show ?thesis
    using U16 by (simp add: view_setUint16_def le16_def list_update_append)
next
  case (U32 d)
  assume "length (field_bytes f) \<le> n"
  then obtain m where "n = Suc (Suc (Suc (Suc m)))"
    using U32 by (cases n; cases "n - 1"; cases "n - 2"; cases "n - 3") (auto simp: le32_def)
  then show ?thesis
    using U32 by (simp add: view_setUint32_def le32_def list_update_append)
qed

lemma put_fields_append:
  "length (concat (map field_bytes fs)) \<le> n \<Longrightarrow>
   put_fields fs (xs @ replicate n 0, length xs)
     = Inr (xs @ concat (map field_bytes fs) @ replicate (n - length (concat (map field_bytes fs))) 0,
            length xs + length (concat (map field_bytes fs)))"
proof (induction fs arbitrary: xs n)
  case Nil
  then show ?case by simp
next
  case (Cons f fs)
  let ?k = "length (field_bytes f)"
  have k: "?k \<le> n" using Cons.prems by simp
  have r: "length (concat (map field_bytes fs)) \<le> n - ?k" using Cons.prems by simp
  have "put_fields fs ((xs @ field_bytes f) @ replicate (n - ?k) 0, length (xs @ field_bytes f))
     = Inr ((xs @ field_bytes f) @ concat (map field_bytes fs)
              @ replicate (n - ?k - length (concat (map field_bytes fs))) 0,
            length (xs @ field_bytes f) + length (concat (map field_bytes fs)))"
    by (rule Cons.IH [OF r])
  then show ?case
    using put_field_append [OF k, of xs] by (simp add: add.assoc)
qed

lemma length_wav_header: "length (wav_header N C R) = 44"
  by (simp add: wav_header_def ascii_def le32_def le16_def)

lemma header_written:
  "audioBufferToWav buffer
     = write_frames (channelData buffer) (frames buffer * numberOfChannels buffer * 2 + 44) 0
         (wav_header (frames buffer) (numberOfChannels buffer) (sampleRate buffer)
            @ replicate (frames buffer * numberOfChannels buffer * 2) 0, 44)"
proof -
  let ?C = "numberOfChannels buffer" and ?N = "frames buffer" and ?R = "sampleRate buffer"
  let ?len = "?N * ?C * 2 + 44"
  let ?fs = "[U32 0x46464952, U32 (?len - 8), U32 0x45564157,
              U32 0x20746d66, U32 16, U16 1, U16 ?C, U32 ?R, U32 (?R * 2 * ?C),
              U16 (?C * 2), U16 16, U32 0x61746164]"
  let ?H = "concat (map field_bytes ?fs)"
  have lH: "length ?H = 40" by (simp add: le32_def le16_def)
  have "put_fields ?fs ([] @ replicate ?len 0, length ([] :: byte list))
          = Inr ([] @ ?H @ replicate (?len - length ?H) 0, length ([] :: byte list) + length ?H)"
    by (rule put_fields_append) (simp add: le32_def le16_def)
  then have 1: "put_fields ?fs (replicate ?len 0, 0) = Inr (?H @ replicate (?N * ?C * 2 + 4) 0, 40)"
    unfolding lH by simp
  have "put_field (U32 (?len - 40 - 4)) (?H @ replicate (?N * ?C * 2 + 4) 0, length ?H)
          = Inr (?H @ field_bytes (U32 (?len - 40 - 4))
                   @ replicate (?N * ?C * 2 + 4 - length (field_bytes (U32 (?len - 40 - 4)))) 0,
                 length ?H + length (field_bytes (U32 (?len - 40 - 4))))"
    by (rule put_field_append) (simp add: le32_def)
  then have 2: "put_field (U32 (?len - 40 - 4)) (?H @ replicate (?N * ?C * 2 + 4) 0, 40)
          = Inr (wav_header ?N ?C ?R @ replicate (?N * ?C * 2) 0, 44)"
    unfolding lH by (simp add: wav_header_def ascii_def le32_def le16_def)
  show ?thesis
    unfolding audioBufferToWav_def Let_def
    by (simp only: 1 2 sum.case prod.case)
qed

lemma js_trunc_pcm_sample:
  "js_trunc (pcm_sample x)
     = (if max (-1) (min 1 x) < 0 then - \<lfloor>- (max (-1) (min 1 x) * 32768)\<rfloor>
        else \<lfloor>max (-1) (min 1 x) * 32767\<rfloor>)"
proof (cases "max (-1) (min 1 x) < 0")
  case True
  then have "max (-1) (min 1 x) * 32768 < 0" by simp
  then show ?thesis using True unfolding js_trunc_def pcm_sample_def Let_def by simp
next
  case False
  then have "\<not> max (-1) (min 1 x) * 32767 < 0" by simp
  then show ?thesis using False unfolding js_trunc_def pcm_sample_def Let_def by simp
qed

lemma js_trunc_pcm_bounds:
  "- 32768 \<le> js_trunc (pcm_sample x)" "js_trunc (pcm_sample x) \<le> 32767"
proof -
  define c where "c = max (-1) (min 1 x)"
  have c: "-1 \<le> c" "c \<le> 1" by (auto simp: c_def)
  have e: "js_trunc (pcm_sample x) = (if c < 0 then - \<lfloor>- (c * 32768)\<rfloor> else \<lfloor>c * 32767\<rfloor>)"
    unfolding c_def by (rule js_trunc_pcm_sample)
  have n1: "\<lfloor>- (c * 32768)\<rfloor> \<le> 32768"
    using c by (simp add: floor_le_iff)
  have n2: "0 \<le> \<lfloor>- (c * 32768)\<rfloor>" if "c < 0"
    using that by simp
  have p1: "\<lfloor>c * 32767\<rfloor> \<le> 32767"
    using c by (simp add: floor_le_iff)
  have p2: "0 \<le> \<lfloor>c * 32767\<rfloor>" if "\<not> c < 0"
    using that by simp
  show "- 32768 \<le> js_trunc (pcm_sample x)"
    using n1 p2 by (cases "c < 0") (simp_all only: e if_True if_False, linarith+)
  show "js_trunc (pcm_sample x) \<le> 32767"
    using n2 p1 by (cases "c < 0") (simp_all only: e if_True if_False, linarith+)
qed

lemma s16_of_sample_word:
  assumes "k < length ch" and "u16_at v i = sample_word ch k"
  shows "s16_at v i = js_trunc (pcm_sample (ch ! k))"
proof -
  let ?z = "js_trunc (pcm_sample (ch ! k))"
  have b: "- 32768 \<le> ?z" "?z \<le> 32767" by (rule js_trunc_pcm_bounds)+
  have w: "u16_at v i = nat (?z mod 65536)" using assms by (simp add: sample_word_def)
  show ?thesis
  proof (cases "0 \<le> ?z")
    case True
    then have "?z mod 65536 = ?z" using b by simp
    then show ?thesis using w True b by (simp add: s16_at_def)
  next
    case False
    have "?z mod 65536 = (?z + 65536) mod 65536" by simp
    also have "\<dots> = ?z + 65536"
      using b False by (intro mod_pos_pos_trivial) auto
    finally show ?thesis using w False b by (simp add: s16_at_def)
  qed
qed

lemma pcm_sample_cases:
  "pcm_sample x = (if x < 0 then max (-1) x * 32768 else min 1 x * 32767)"
  by (auto simp: pcm_sample_def Let_def max_def min_def)

lemma wav_header_bytes:
  "wav_header N C R =
     [82, 73, 70, 70] @ le32 (N * C * 2 + 44 - 8) @ [87, 65, 86, 69]
     @ [102, 109, 116, 32] @ [16, 0, 0, 0] @ [1, 0] @ le16 C @ le32 R @ le32 (R * 2 * C)
     @ le16 (C * 2) @ [16, 0]
     @ [100, 97, 116, 97] @ le32 (N * C * 2)"
  by (simp add: wav_header_def ascii_def le32_def le16_def)

lemma nth_of_take_drop:
  assumes "take 4 (drop i v) = [a, b, c, d]"
  shows "v ! i = a" and "v ! (i + 1) = b" and "v ! (i + 2) = c" and "v ! (i + 3) = d"
proof -
  have "length (take 4 (drop i v)) = 4" using assms by simp
  then have len: "i + 4 \<le> length v" by simp
  have "take 4 (drop i v) ! j = v ! (i + j)" if "j < 4" for j
    using that len by simp
  from this [of 0] this [of 1] this [of 2] this [of 3] assms
  show "v ! i = a" and "v ! (i + 1) = b" and "v ! (i + 2) = c" and "v ! (i + 3) = d"
    by simp_all
qed

lemma nth_of_take2_drop:
  assumes "take 2 (drop i v) = [a, b]"
  shows "v ! i = a" and "v ! (i + 1) = b"
proof -
  have "length (take 2 (drop i v)) = 2" using assms by simp
  then have len: "i + 2 \<le> length v" by simp
  have "take 2 (drop i v) ! j = v ! (i + j)" if "j < 2" for j
    using that len by simp
  from this [of 0] this [of 1] assms
  show "v ! i = a" and "v ! (i + 1) = b"
    by simp_all
qed

lemma u32_at_le32:
  assumes "take 4 (drop i v) = le32 d"
  shows "u32_at v i = d mod 4294967296"
  using nth_of_take_drop [OF assms [unfolded le32_def]] u32_bytes [of d]
  by (simp add: u32_at_def)

lemma u16_at_le16:
  assumes "take 2 (drop i v) = le16 d"
  shows "u16_at v i = d mod 65536"
  using nth_of_take2_drop [OF assms [unfolded le16_def]] u16_bytes [of d]
  by (simp add: u16_at_def)

lemma length_le: "length (le32 d) = 4" "length (le16 d) = 2"
  by (simp_all add: le32_def le16_def)

lemma header_fields_read:
  assumes h: "take 44 bytes = wav_header N C R"
  shows "take 4 bytes = ascii ''RIFF''"
    and "u32_at bytes 4 = (N * C * 2 + 44 - 8) mod 4294967296"
    and "take 4 (drop 8 bytes) = ascii ''WAVE''"
    and "take 4 (drop 12 bytes) = ascii ''fmt ''"
    and "u32_at bytes 16 = 16"
    and "u16_at bytes 20 = 1"
    and "u16_at bytes 22 = C mod 65536"
    and "u32_at bytes 24 = R mod 4294967296"
    and "u32_at bytes 28 = (R * 2 * C) mod 4294967296"
    and "u16_at bytes 32 = (C * 2) mod 65536"
    and "u16_at bytes 34 = 16"
    and "take 4 (drop 36 bytes) = ascii ''data''"
    and "u32_at bytes 40 = (N * C * 2) mod 4294967296"
proof -
  have t: "take n (drop k bytes) = take n (drop k (wav_header N C R))" if "k + n \<le> 44" for k n
  proof -
    have "take n (drop k (take 44 bytes)) = take n (drop k bytes)"
      using that by (simp add: drop_take min_def)
    then show ?thesis by (simp only: h)
  qed
  show "take 4 bytes = ascii ''RIFF''"
    using t [of 0 4] by (simp add: wav_header_bytes ascii_def)
  show "take 4 (drop 8 bytes) = ascii ''WAVE''"
    using t [of 8 4] by (simp add: wav_header_bytes ascii_def length_le)
  show "take 4 (drop 12 bytes) = ascii ''fmt ''"
    using t [of 12 4] by (simp add: wav_header_bytes ascii_def length_le)
  show "take 4 (drop 36 bytes) = ascii ''data''"
    using t [of 36 4] by (simp add: wav_header_bytes ascii_def length_le)
  have "take 4 (drop 4 bytes) = le32 (N * C * 2 + 44 - 8)"
    using t [of 4 4] by (simp add: wav_header_bytes length_le)
  then show "u32_at bytes 4 = (N * C * 2 + 44 - 8) mod 4294967296"
    by (rule u32_at_le32)
  have "take 4 (drop 16 bytes) = le32 16"
    using t [of 16 4] by (simp add: wav_header_bytes length_le le32_def)
  then show "u32_at bytes 16 = 16"
    using u32_at_le32 [of 16 bytes 16] by simp
  have "take 2 (drop 20 bytes) = le16 1"
    using t [of 20 2] by (simp add: wav_header_bytes length_le le16_def)
  then show "u16_at bytes 20 = 1"
    using u16_at_le16 [of 20 bytes 1] by simp
  have "take 2 (drop 22 bytes) = le16 C"
    using t [of 22 2] by (simp add: wav_header_bytes length_le)
  then show "u16_at bytes 22 = C mod 65536"
    by (rule u16_at_le16)
  have "take 4 (drop 24 bytes) = le32 R"
    using t [of 24 4] by (simp add: wav_header_bytes length_le)
  then show "u32_at bytes 24 = R mod 4294967296"
    by (rule u32_at_le32)
  have "take 4 (drop 28 bytes) = le32 (R * 2 * C)"
    using t [of 28 4] by (simp add: wav_header_bytes length_le)
  then show "u32_at bytes 28 = (R * 2 * C) mod 4294967296"
    by (rule u32_at_le32)
  have "take 2 (drop 32 bytes) = le16 (C * 2)"
    using t [of 32 2] by (simp add: wav_header_bytes length_le)
  then show "u16_at bytes 32 = (C * 2) mod 65536"
    by (rule u16_at_le16)
  have "take 2 (drop 34 bytes) = le16 16"
    using t [of 34 2] by (simp add: wav_header_bytes length_le le16_def)
  then show "u16_at bytes 34 = 16"
    using u16_at_le16 [of 34 bytes 16] by simp
  have "take 4 (drop 40 bytes) = le32 (N * C * 2)"
    using t [of 40 4] by (simp add: wav_header_bytes length_le)
  then show "u32_at bytes 40 = (N * C * 2) mod 4294967296"
    by (rule u32_at_le32)
qed

text \<open>
  C4. For a rendered buffer with \<open>C\<close> channels of \<open>N\<close> samples each at sample rate
  \<open>R\<close>, \<open>audioBufferToWav\<close> returns (the loop ends, nothing is thrown) a container of
  exactly \<open>N * C * 2 + 44\<close> bytes: the header of section 6 (\<open>"RIFF"\<close>, chunk size = file
  length - 8, \<open>"WAVE"\<close>, \<open>"fmt "\<close>, 16, PCM tag 1, \<open>C\<close>, \<open>R\<close>, byte rate
  \<open>R * 2 * C\<close>, block align \<open>C * 2\<close>, 16 bits, \<open>"data"\<close>, data length \<open>N * C * 2\<close>),
  then the samples interleaved by frame, each the signed 16-bit integer part of the sample
  clamped to \<open>[-1, 1]\<close> and scaled by 32768 when negative and by 32767 otherwise. A
  header field holds its number when the number fits the field's 16 or 32 bits (a file
  under 4 GiB), which is what the container format can express; the field is the number
  modulo \<open>2^16\<close> or \<open>2^32\<close> in any case (\<open>wav_header\<close>). For 2 channels, 44100 Hz and
  88200 samples the container has \<open>88200 * 2 * 2 + 44\<close> bytes (checked on
  \<open>two_second_stereo\<close> below).
\<close>

theorem audioBufferToWav_layout:
  fixes buffer :: audio_buffer
  defines "C \<equiv> numberOfChannels buffer" and "N \<equiv> frames buffer" and "R \<equiv> sampleRate buffer"
  assumes wf: "\<forall>ch \<in> set (channelData buffer). length ch = N"
  shows "\<exists>bytes. audioBufferToWav buffer = Some (Inr bytes)
     \<and> length bytes = N * C * 2 + 44
     \<and> take 44 bytes = wav_header N C R
     \<and> take 4 bytes = ascii ''RIFF''
     \<and> (N * C * 2 + 36 < 4294967296 \<longrightarrow> u32_at bytes 4 = length bytes - 8)
     \<and> take 4 (drop 8 bytes) = ascii ''WAVE''
     \<and> take 4 (drop 12 bytes) = ascii ''fmt ''
     \<and> u32_at bytes 16 = 16
     \<and> u16_at bytes 20 = 1
     \<and> (C * 2 < 65536 \<longrightarrow> u16_at bytes 22 = C)
     \<and> (R < 4294967296 \<longrightarrow> u32_at bytes 24 = R)
     \<and> (R * 2 * C < 4294967296 \<longrightarrow> u32_at bytes 28 = R * 2 * C)
     \<and> (C * 2 < 65536 \<longrightarrow> u16_at bytes 32 = C * 2)
     \<and> u16_at bytes 34 = 16
     \<and> take 4 (drop 36 bytes) = ascii ''data''
     \<and> (N * C * 2 + 36 < 4294967296 \<longrightarrow> u32_at bytes 40 = N * C * 2)
     \<and> (\<forall>k<N. \<forall>i<C.
           s16_at bytes (44 + (k * C + i) * 2)
             = js_trunc (if channelData buffer ! i ! k < 0
                         then max (-1) (channelData buffer ! i ! k) * 32768
                         else min 1 (channelData buffer ! i ! k) * 32767))"
proof -
  let ?chs = "channelData buffer"
  let ?v = "wav_header N C R @ replicate (N * C * 2) 0"
  have C: "C = length ?chs" by (simp add: C_def numberOfChannels_def)
  have "\<exists>v'. write_frames ?chs (44 + N * length ?chs * 2) 0 (?v, 44) = Some (Inr v')
           \<and> length v' = 44 + N * length ?chs * 2
           \<and> (\<forall>j<44. v' ! j = ?v ! j)
           \<and> (\<forall>k i. 0 \<le> k \<and> k < N \<and> i < length ?chs \<longrightarrow>
                 u16_at v' (44 + (k * length ?chs + i) * 2) = sample_word (?chs ! i) k)"
    by (rule write_frames_ok [of 0 N]) (simp_all add: length_wav_header C)
  then obtain bytes where b: "write_frames ?chs (44 + N * C * 2) 0 (?v, 44) = Some (Inr bytes)"
      "length bytes = 44 + N * C * 2" "\<forall>j<44. bytes ! j = ?v ! j"
      "\<forall>k i. k < N \<and> i < C \<longrightarrow> u16_at bytes (44 + (k * C + i) * 2) = sample_word (?chs ! i) k"
    unfolding C by auto
  have r: "audioBufferToWav buffer = Some (Inr bytes)"
    using b(1) header_written [of buffer] by (simp add: C_def N_def R_def add.commute)
  have "take 44 bytes = take 44 ?v"
    using b(2,3) by (intro nth_take_lemma) (simp_all add: length_wav_header)
  then have h: "take 44 bytes = wav_header N C R"
    by (simp add: length_wav_header)
  note f = header_fields_read [OF h]
  have s: "s16_at bytes (44 + (k * C + i) * 2)
             = js_trunc (if ?chs ! i ! k < 0 then max (-1) (?chs ! i ! k) * 32768
                         else min 1 (?chs ! i ! k) * 32767)" if "k < N" "i < C" for k i
  proof -
    have "?chs ! i \<in> set ?chs" using that C by simp
    then have "k < length (?chs ! i)" using wf that by simp
    then have "s16_at bytes (44 + (k * C + i) * 2) = js_trunc (pcm_sample (?chs ! i ! k))"
      using b(4) that by (intro s16_of_sample_word) auto
    then show ?thesis by (simp only: pcm_sample_cases)
  qed
  show ?thesis
    using r b(2) h f s by (intro exI [of _ bytes]) simp
qed

theorem audioBufferToWav_layout_witness:
  "(\<exists>bytes. audioBufferToWav two_second_stereo = Some (Inr bytes)
      \<and> length bytes = 88200 * 2 * 2 + 44
      \<and> take 4 bytes = ascii ''RIFF'' \<and> u32_at bytes 4 = 352836
      \<and> u16_at bytes 22 = 2 \<and> u32_at bytes 24 = 44100 \<and> u32_at bytes 28 = 176400
      \<and> u16_at bytes 32 = 4 \<and> u16_at bytes 34 = 16 \<and> u32_at bytes 40 = 352800
      \<and> s16_at bytes 44 = 0)
   \<and> (\<exists>bytes. audioBufferToWav small_stereo = Some (Inr bytes)
      \<and> length bytes = 52 \<and> u32_at bytes 24 = 8000 \<and> u32_at bytes 40 = 8
      \<and> s16_at bytes 44 = 16383 \<and> s16_at bytes 46 = 32767
      \<and> s16_at bytes 48 = - 32768 \<and> s16_at bytes 50 = - 8192)"
proof
  have wf: "\<forall>ch \<in> set (channelData two_second_stereo). length ch = frames two_second_stereo"
    by (simp add: two_second_stereo_def)
  have fits: "frames two_second_stereo * numberOfChannels two_second_stereo * 2 + 36 < 4294967296"
      "sampleRate two_second_stereo < 4294967296"
      "sampleRate two_second_stereo * 2 * numberOfChannels two_second_stereo < 4294967296"
      "numberOfChannels two_second_stereo * 2 < 65536"
    by (simp_all add: two_second_stereo_def numberOfChannels_def)
  from audioBufferToWav_layout [OF wf] fits
  obtain bytes where b: "audioBufferToWav two_second_stereo = Some (Inr bytes)"
      "length bytes = frames two_second_stereo * numberOfChannels two_second_stereo * 2 + 44"
      "take 4 bytes = ascii ''RIFF''" "u32_at bytes 4 = length bytes - 8"
      "u16_at bytes 22 = numberOfChannels two_second_stereo"
      "u32_at bytes 24 = sampleRate two_second_stereo"
      "u32_at bytes 28 = sampleRate two_second_stereo * 2 * numberOfChannels two_second_stereo"
      "u16_at bytes 32 = numberOfChannels two_second_stereo * 2" "u16_at bytes 34 = 16"
      "u32_at bytes 40 = frames two_second_stereo * numberOfChannels two_second_stereo * 2"
      "\<forall>k<frames two_second_stereo. \<forall>i<numberOfChannels two_second_stereo.
           s16_at bytes (44 + (k * numberOfChannels two_second_stereo + i) * 2)
             = js_trunc (if channelData two_second_stereo ! i ! k < 0
                         then max (-1) (channelData two_second_stereo ! i ! k) * 32768
                         else min 1 (channelData two_second_stereo ! i ! k) * 32767)"
    by blast
  have "s16_at bytes 44 = 0"
    using b(11) [rule_format, of 0 0]
    by (simp add: two_second_stereo_def numberOfChannels_def js_trunc_def)
  then show "\<exists>bytes. audioBufferToWav two_second_stereo = Some (Inr bytes)
      \<and> length bytes = 88200 * 2 * 2 + 44
      \<and> take 4 bytes = ascii ''RIFF'' \<and> u32_at bytes 4 = 352836
      \<and> u16_at bytes 22 = 2 \<and> u32_at bytes 24 = 44100 \<and> u32_at bytes 28 = 176400
      \<and> u16_at bytes 32 = 4 \<and> u16_at bytes 34 = 16 \<and> u32_at bytes 40 = 352800
      \<and> s16_at bytes 44 = 0"
    using b(1-10) by (intro exI [of _ bytes]) (simp add: two_second_stereo_def numberOfChannels_def)
next
  have wf: "\<forall>ch \<in> set (channelData small_stereo). length ch = frames small_stereo"
    by (simp add: small_stereo_def)
  have fits: "frames small_stereo * numberOfChannels small_stereo * 2 + 36 < 4294967296"
      "sampleRate small_stereo < 4294967296"
      "sampleRate small_stereo * 2 * numberOfChannels small_stereo < 4294967296"
      "numberOfChannels small_stereo * 2 < 65536"
    by (simp_all add: small_stereo_def numberOfChannels_def)
  from audioBufferToWav_layout [OF wf] fits
  obtain bytes where b: "audioBufferToWav small_stereo = Some (Inr bytes)"
      "length bytes = frames small_stereo * numberOfChannels small_stereo * 2 + 44"
      "u32_at bytes 24 = sampleRate small_stereo"
      "u32_at bytes 40 = frames small_stereo * numberOfChannels small_stereo * 2"
      "\<forall>k<frames small_stereo. \<forall>i<numberOfChannels small_stereo.
           s16_at bytes (44 + (k * numberOfChannels small_stereo + i) * 2)
             = js_trunc (if channelData small_stereo ! i ! k < 0
                         then max (-1) (channelData small_stereo ! i ! k) * 32768
                         else min 1 (channelData small_stereo ! i ! k) * 32767)"
    by blast
  have "s16_at bytes 44 = 16383" "s16_at bytes 46 = 32767"
      "s16_at bytes 48 = - 32768" "s16_at bytes 50 = - 8192"
    using b(5) [rule_format, of 0 0] b(5) [rule_format, of 0 1]
      b(5) [rule_format, of 1 0] b(5) [rule_format, of 1 1]
    by (simp_all add: small_stereo_def numberOfChannels_def js_trunc_def)
  then show "\<exists>bytes. audioBufferToWav small_stereo = Some (Inr bytes)
      \<and> length bytes = 52 \<and> u32_at bytes 24 = 8000 \<and> u32_at bytes 40 = 8
      \<and> s16_at bytes 44 = 16383 \<and> s16_at bytes 46 = 32767
      \<and> s16_at bytes 48 = - 32768 \<and> s16_at bytes 50 = - 8192"
    using b(1-4) by (intro exI [of _ bytes]) (simp add: small_stereo_def numberOfChannels_def)
qed

text \<open>The writer run on a small buffer, byte for byte.\<close>

lemma list_update_Cons_numeral:
  "(x # xs)[numeral v := y] = x # xs[numeral v - 1 := y]"
  by (simp add: numeral_eq_Suc)

lemma audioBufferToWav_small_stereo:
  "audioBufferToWav small_stereo =
     Some (Inr [82, 73, 70, 70, 44, 0, 0, 0, 87, 65, 86, 69,
                102, 109, 116, 32, 16, 0, 0, 0, 1, 0, 2, 0,
                64, 31, 0, 0, 0, 125, 0, 0, 4, 0, 16, 0,
                100, 97, 116, 97, 8, 0, 0, 0,
                255, 63, 255, 127, 0, 128, 0, 224])"
proof -
  have r: "replicate 8 (0::nat) = [0, 0, 0, 0, 0, 0, 0, 0]"
    by (simp add: numeral_eq_Suc)
  show ?thesis
    by (simp add: header_written small_stereo_def numberOfChannels_def wav_header_def ascii_def
        le32_def le16_def write_frames.simps view_setInt16_def view_setUint16_def pcm_sample_def
        js_trunc_def Let_def r list_update_append list_update_Cons_numeral)
qed

end
